theory Spec2Isabelle
  imports Complex_Main
begin

section \<open>Numbers\<close>

text \<open>
  A JavaScript number is modelled as a real. In the forecast, the retention analysis and
  the CSV functions the rounding of IEEE-754 doubles is not modelled. The sums of the
  aggregation engine are modelled with it (\<open>double_add\<close> below), because the order of the
  additions decides their result. Where the source can produce a value that is not a
  finite number (a division by zero, an arithmetic operation on \<open>undefined\<close>), the model
  returns \<open>None\<close>.
\<close>

datatype js_error = TypeError

definition js_round :: "real \<Rightarrow> real" where
  \<comment> \<open>\<open>Math.round\<close>: the nearest integer, a tie going up.\<close>
  "js_round v = of_int \<lfloor>v + 1 / 2\<rfloor>"

fun binade :: "nat \<Rightarrow> real \<Rightarrow> int" where
  \<comment> \<open>The exponent \<open>e\<close> with \<open>2^e \<le> x < 2^(e+1)\<close> of a positive \<open>x\<close>, found by doubling
      or halving at most \<open>fuel\<close> times.\<close>
  "binade 0 x = 0"
| "binade (Suc fuel) x =
     (if x < 1 then binade fuel (2 * x) - 1
      else if 2 \<le> x then binade fuel (x / 2) + 1
      else 0)"

definition pow2 :: "int \<Rightarrow> real" where
  "pow2 e = (if 0 \<le> e then 2 ^ nat e else 1 / 2 ^ nat (- e))"

definition round_half_even :: "real \<Rightarrow> int" where
  \<comment> \<open>The nearest integer, a tie going to the even one.\<close>
  "round_half_even q =
     (let f = \<lfloor>q\<rfloor>; r = q - of_int f
      in if r < 1 / 2 then f else if 1 / 2 < r then f + 1
         else if even f then f else f + 1)"

definition to_double :: "real \<Rightarrow> real" where
  \<comment> \<open>The double nearest to \<open>x\<close> (53 significant bits, ties to even, exponents from
      \<open>-1022\<close> on, so that subnormal numbers are covered). The exponents of doubles lie
      between \<open>-1074\<close> and \<open>1023\<close>, within the 1100 steps of \<open>binade\<close>; the overflow to
      \<open>Infinity\<close> is not modelled.\<close>
  "to_double x =
     (if x = 0 then 0
      else
        let e = max (binade 1100 \<bar>x\<bar>) (- 1022);
            ulp = pow2 (e - 52)
        in sgn x * of_int (round_half_even (\<bar>x\<bar> / ulp)) * ulp)"

definition double_add :: "real \<Rightarrow> real \<Rightarrow> real" where
  \<comment> \<open>\<open>a + b\<close> on doubles: the exact sum, rounded once.\<close>
  "double_add a b = to_double (a + b)"

section \<open>Forecast engine (app.js)\<close>

text \<open>
  One element of \<open>yearlyData\<close>, the object \<open>{year, revenue, growers}\<close> built by
  \<open>runForecast\<close>. The fields carry the prefix \<open>y_\<close>, the forecast result below has
  fields \<open>revenue\<close> and \<open>growers\<close> of its own.
\<close>

record yearly =
  y_year :: real
  y_revenue :: real
  y_growers :: real

record forecast =
  revenue :: real
  revenueLow :: real
  revenueHigh :: real
  growers :: real
  growersLow :: real
  growersHigh :: real

definition linearRegression :: "real list \<Rightarrow> real list \<Rightarrow> real \<Rightarrow> real option" where
  \<comment> \<open>\<open>None\<close>: the result is not a finite number. That is so when \<open>y\<close> is shorter than
      \<open>x\<close> (\<open>xi * y[i]\<close> is then \<open>NaN\<close>) and when the denominator of the slope is zero.\<close>
  "linearRegression x y targetX =
     (let n = length x in
      if n = 0 then Some 0
      else if length y < n then None
      else
        let sumX = sum_list x;
            sumY = sum_list y;
            sumXY = sum_list (map2 (*) x y);
            sumX2 = sum_list (map (\<lambda>xi. xi * xi) x);
            den = real n * sumX2 - sumX * sumX
        in if den = 0 then None
           else
             let slope = (real n * sumXY - sumX * sumY) / den;
                 intercept = (sumY - slope * sumX) / real n
             in Some (slope * targetX + intercept))"

fun growthRates :: "real list \<Rightarrow> real list" where
  \<comment> \<open>The loop \<open>for (i = 1; i < data.length; i++)\<close> of \<open>growthRateForecast\<close>.\<close>
  "growthRates (prev # cur # rest) =
     (if prev > 0 then (cur - prev) / prev # growthRates (cur # rest)
      else growthRates (cur # rest))"
| "growthRates _ = []"

definition growthRateForecast :: "real list \<Rightarrow> real" where
  \<comment> \<open>\<open>data[data.length - 1] || 0\<close> is 0 on the empty array (the read is \<open>undefined\<close>).\<close>
  "growthRateForecast data =
     (if length data < 2 then (if data = [] then 0 else last data)
      else
        let rates = growthRates data;
            avgGrowth = (if length rates \<noteq> 0 then sum_list rates / real (length rates) else 0)
        in last data * (1 + avgGrowth))"

definition weightedAverageForecast :: "real list \<Rightarrow> real" where
  "weightedAverageForecast data =
     (if length data = 0 then 0
      else
        let weights = map (\<lambda>i. real (i + 1)) [0 ..< length data];
            totalWeight = sum_list weights;
            weighted = sum_list (map2 (*) data weights);
            weightedAvg = weighted / totalWeight;
            lastValue = last data;
            avgValue = sum_list data / real (length data);
            trend = (if lastValue > avgValue then 1.05 else 0.95)
        in weightedAvg * trend)"

definition standardDeviation :: "real list \<Rightarrow> real" where
  "standardDeviation data =
     (if length data = 0 then 0
      else
        let mean = sum_list data / real (length data);
            squaredDiffs = map (\<lambda>v. (v - mean)\<^sup>2) data
        in sqrt (sum_list squaredDiffs / real (length data)))"

definition zScores :: "(real \<times> real) list" where
  "zScores = [(0.80, 1.28), (0.90, 1.645), (0.95, 1.96)]"

definition getZScore :: "real \<Rightarrow> real" where
  \<comment> \<open>\<open>zScores[confidence] || 1.645\<close>: every entry of the table is truthy.\<close>
  "getZScore confidence =
     (case map_of zScores confidence of Some z \<Rightarrow> z | None \<Rightarrow> 1.645)"

definition projections :: "yearly list \<Rightarrow> string \<Rightarrow> (real \<times> real) option" where
  \<comment> \<open>The \<open>switch (method)\<close> of \<open>calculateForecast\<close>: the pair
      \<open>(forecastRevenue, forecastGrowers)\<close>, \<open>None\<close> when one of them is not a finite number.\<close>
  "projections data method =
     (let revenues = map y_revenue data;
          growers = map y_growers data;
          years = map y_year data
      in if method = ''growth''
           then Some (growthRateForecast revenues, growthRateForecast growers)
         else if method = ''weighted''
           then Some (weightedAverageForecast revenues, weightedAverageForecast growers)
         else
           (case (linearRegression years revenues 2027, linearRegression years growers 2027) of
              (Some fr, Some fg) \<Rightarrow> Some (fr, fg)
            | _ \<Rightarrow> None))"

definition calculateForecast :: "yearly list \<Rightarrow> string \<Rightarrow> real \<Rightarrow> forecast option" where
  "calculateForecast data method confidence =
     (case projections data method of
        None \<Rightarrow> None
      | Some (forecastRevenue, forecastGrowers) \<Rightarrow>
          let revenueStdDev = standardDeviation (map y_revenue data);
              zScore = getZScore confidence;
              marginOfError = revenueStdDev * zScore;
              growerStdDev = standardDeviation (map y_growers data);
              growerMargin = growerStdDev * zScore
          in Some \<lparr> revenue = max 0 forecastRevenue,
                    revenueLow = max 0 (forecastRevenue - marginOfError),
                    revenueHigh = forecastRevenue + marginOfError,
                    growers = max 0 (js_round forecastGrowers),
                    growersLow = max 0 (js_round (forecastGrowers - growerMargin)),
                    growersHigh = js_round (forecastGrowers + growerMargin) \<rparr>)"

section \<open>Transactions and sets of names\<close>

text \<open>
  A transaction as both programs hold it: the six fields written by \<open>parseCSV\<close>.
  Strings are lists of 8-bit characters.
\<close>

record transaction =
  date :: string
  invoice_number :: string
  grower_name :: string
  product :: string
  quantity :: real
  amount :: real

text \<open>
  A JavaScript \<open>Set\<close> is modelled as the list of its members in insertion order, without
  duplicates.
\<close>

definition set_add :: "'a \<Rightarrow> 'a list \<Rightarrow> 'a list" where
  "set_add v s = (if v \<in> set s then s else s @ [v])"

definition new_Set :: "'a list \<Rightarrow> 'a list" where
  "new_Set vs = foldl (\<lambda>s v. set_add v s) [] vs"

section \<open>Retention analyzer\<close>

record grower_stats =
  newGrowers :: nat
  returningGrowers :: nat
  lostGrowers :: nat
  retentionRate :: real

definition updateGrowerStats :: "transaction list \<Rightarrow> transaction list \<Rightarrow> grower_stats" where
  \<comment> \<open>app.js. The arguments are \<open>filterDataByYear(year)\<close> and
      \<open>filterDataByYear(year - 1)\<close>; the result holds the four numbers the function
      writes into the page (the rate before \<open>toFixed(1)\<close>).\<close>
  "updateGrowerStats currentYearData previousYearData =
     (let currentGrowers = new_Set (map grower_name currentYearData);
          previousGrowers = new_Set (map grower_name previousYearData);
          newG = length (filter (\<lambda>g. g \<notin> set previousGrowers) currentGrowers);
          returningG = length (filter (\<lambda>g. g \<in> set previousGrowers) currentGrowers);
          lostG = length (filter (\<lambda>g. g \<notin> set currentGrowers) previousGrowers);
          rate = (if length previousGrowers \<noteq> 0
                  then real returningG / real (length previousGrowers) * 100 else 0)
      in \<lparr> newGrowers = newG, returningGrowers = returningG, lostGrowers = lostG,
           retentionRate = rate \<rparr>)"

text \<open>
  One element of \<open>retentionData\<close> in the handler of \<open>GET /api/growers/retention/analysis\<close>.
  \<open>retentionRate\<close> is there the string made by \<open>toFixed(1)\<close>, or the number 0.
\<close>

record retention_entry =
  e_year :: nat
  totalGrowers :: nat
  e_returningGrowers :: nat
  e_newGrowers :: nat
  e_lostGrowers :: nat
  e_retentionRate :: "string + real"

definition retention_analysis_entry ::
  "(real \<Rightarrow> string) \<Rightarrow> nat \<Rightarrow> transaction list \<Rightarrow> transaction list \<Rightarrow> retention_entry" where
  \<comment> \<open>The body of the loop over the years. \<open>toFixed1\<close> stands for \<open>Number.toFixed(1)\<close>;
      the two lists are the transactions the two date filters select, and
      \<open>distinct('grower_name', ...)\<close> is the list of the different names in them.\<close>
  "retention_analysis_entry toFixed1 currentYear currentYearData previousYearData =
     (let currentGrowers = new_Set (map grower_name currentYearData);
          previousGrowers = new_Set (map grower_name previousYearData);
          previousSet = new_Set previousGrowers;
          currentSet = new_Set currentGrowers;
          returning = filter (\<lambda>g. g \<in> set previousSet) currentGrowers;
          newG = filter (\<lambda>g. g \<notin> set previousSet) currentGrowers;
          lost = filter (\<lambda>g. g \<notin> set currentSet) previousGrowers
      in \<lparr> e_year = currentYear,
           totalGrowers = length currentGrowers,
           e_returningGrowers = length returning,
           e_newGrowers = length newG,
           e_lostGrowers = length lost,
           e_retentionRate =
             (if length previousGrowers > 0
              then Inl (toFixed1 (real (length returning) / real (length previousGrowers) * 100))
              else Inr 0) \<rparr>)"

section \<open>Aggregation engine (server)\<close>

record summary =
  totalRevenue :: real
  totalOrders :: nat
  uniqueGrowers :: nat
  totalUnits :: real
  avgOrderValue :: real

definition calculateSummary :: "transaction list \<Rightarrow> summary" where
  \<comment> \<open>\<open>d.amount || 0\<close> and \<open>d.quantity || 0\<close> are the fields themselves on numbers. Each
      \<open>reduce\<close> adds doubles from the left, starting at 0.\<close>
  "calculateSummary data =
     (let tRevenue = foldl (\<lambda>sum d. double_add sum (amount d)) 0 data;
          tOrders = length data;
          uGrowers = length (new_Set (map grower_name data));
          tUnits = foldl (\<lambda>sum d. double_add sum (quantity d)) 0 data
      in \<lparr> totalRevenue = tRevenue, totalOrders = tOrders, uniqueGrowers = uGrowers,
           totalUnits = tUnits,
           avgOrderValue = (if tOrders \<noteq> 0 then to_double (tRevenue / real tOrders) else 0) \<rparr>)"

text \<open>
  The value stored under a grower's name by the handler of
  \<open>GET /api/analytics/by-grower\<close>; its field \<open>revenue\<close> is \<open>g_revenue\<close> here.
\<close>

record grower_summary =
  g_revenue :: real
  orders :: nat
  products :: "string list"
  firstPurchase :: string
  lastPurchase :: string

definition object_prototype_names :: "string list" where
  \<comment> \<open>The names of the properties of \<open>Object.prototype\<close>, which the object literal \<open>{}\<close>
      inherits. The value of each is a function, or an object for \<open>__proto__\<close>: truthy,
      and without a \<open>products\<close> property.\<close>
  "object_prototype_names =
     [''constructor'', ''__defineGetter__'', ''__defineSetter__'', ''hasOwnProperty'',
      ''__lookupGetter__'', ''__lookupSetter__'', ''isPrototypeOf'', ''propertyIsEnumerable'',
      ''toString'', ''valueOf'', ''__proto__'', ''toLocaleString'']"

definition add_purchase ::
  "(string \<Rightarrow> string \<Rightarrow> bool) \<Rightarrow> transaction \<Rightarrow> (string \<times> grower_summary) list
     \<Rightarrow> (string \<times> grower_summary) list" where
  \<comment> \<open>The statements of \<open>data.forEach\<close> after \<open>const grower = byGrower[d.grower_name]\<close>,
      which change the entry of that name in place. \<open>before a b\<close> stands for
      \<open>new Date(a) < new Date(b)\<close>.\<close>
  "add_purchase before d byGrower =
     map (\<lambda>(name, grower).
            if name = grower_name d
            then (name,
                  \<lparr> g_revenue = double_add (g_revenue grower) (amount d),
                    orders = orders grower + 1,
                    products = set_add (product d) (products grower),
                    firstPurchase = (if before (date d) (firstPurchase grower)
                                     then date d else firstPurchase grower),
                    lastPurchase = (if before (lastPurchase grower) (date d)
                                    then date d else lastPurchase grower) \<rparr>)
            else (name, grower)) byGrower"

definition by_grower_step ::
  "(string \<Rightarrow> string \<Rightarrow> bool) \<Rightarrow> (string \<times> grower_summary) list \<Rightarrow> transaction
     \<Rightarrow> js_error + (string \<times> grower_summary) list" where
  \<comment> \<open>The body of \<open>data.forEach\<close>. The object \<open>byGrower\<close> is the list of its own
      properties in insertion order (the language lists names that are array indices
      first; the order plays no part in what is proved). For a name it does not own, \<open>byGrower[name]\<close> is the
      inherited value when the name is one of \<open>Object.prototype\<close>: then no entry is made
      and \<open>grower.products.add\<close> throws a TypeError, \<open>grower.products\<close> being undefined
      (what the two statements before it write on the inherited value is not modelled).\<close>
  "by_grower_step before byGrower d =
     (case map_of byGrower (grower_name d) of
        None \<Rightarrow>
          if grower_name d \<in> set object_prototype_names then Inl TypeError
          else Inr (add_purchase before d
                      (byGrower @ [(grower_name d,
                          \<lparr> g_revenue = 0, orders = 0, products = [],
                            firstPurchase = date d, lastPurchase = date d \<rparr>)]))
      | Some _ \<Rightarrow> Inr (add_purchase before d byGrower))"

fun by_grower_loop ::
  "(string \<Rightarrow> string \<Rightarrow> bool) \<Rightarrow> (string \<times> grower_summary) list \<Rightarrow> transaction list
     \<Rightarrow> js_error + (string \<times> grower_summary) list" where
  \<comment> \<open>\<open>data.forEach\<close>: an exception ends the loop.\<close>
  "by_grower_loop before byGrower [] = Inr byGrower"
| "by_grower_loop before byGrower (d # ds) =
     (case by_grower_step before byGrower d of
        Inl err \<Rightarrow> Inl err
      | Inr byGrower' \<Rightarrow> by_grower_loop before byGrower' ds)"

definition by_grower ::
  "(string \<Rightarrow> string \<Rightarrow> bool) \<Rightarrow> transaction list
     \<Rightarrow> js_error + (string \<times> grower_summary) list" where
  \<comment> \<open>The handler of \<open>GET /api/analytics/by-grower\<close> on the stored transactions:
      \<open>Inr\<close> the \<open>growers\<close> of its answer, \<open>Inl\<close> the exception its \<open>catch\<close> turns into
      the answer 500.\<close>
  "by_grower before data = by_grower_loop before [] data"

section \<open>CSV text\<close>

subsection \<open>String primitives of the language\<close>

definition is_space :: "char \<Rightarrow> bool" where
  \<comment> \<open>The characters \<open>String.prototype.trim\<close> removes, among the 8-bit ones: tab, line
      feed, vertical tab, form feed, carriage return, space, no-break space.\<close>
  "is_space c = (of_char c \<in> {9, 10, 11, 12, 13, 32, 160 :: nat})"

definition trim :: "string \<Rightarrow> string" where
  "trim s = rev (dropWhile is_space (rev (dropWhile is_space s)))"

definition lower_char :: "char \<Rightarrow> char" where
  "lower_char c =
     (let k = of_char c :: nat
      in if (65 \<le> k \<and> k \<le> 90) \<or> (192 \<le> k \<and> k \<le> 222 \<and> k \<noteq> 215)
         then char_of (k + 32) else c)"

definition toLowerCase :: "string \<Rightarrow> string" where
  "toLowerCase s = map lower_char s"

fun str_includes :: "string \<Rightarrow> string \<Rightarrow> bool" where
  "str_includes [] sub = (sub = [])"
| "str_includes (c # cs) sub = (take (length sub) (c # cs) = sub \<or> str_includes cs sub)"

fun split_from :: "char \<Rightarrow> string \<Rightarrow> string \<Rightarrow> string list" where
  "split_from sep current [] = [current]"
| "split_from sep current (c # cs) =
     (if c = sep then current # split_from sep [] cs
      else split_from sep (current @ [c]) cs)"

definition split_on :: "char \<Rightarrow> string \<Rightarrow> string list" where
  \<comment> \<open>\<open>s.split(sep)\<close> for a separator of one character.\<close>
  "split_on sep s = split_from sep [] s"

fun join :: "string \<Rightarrow> string list \<Rightarrow> string" where
  "join sep [] = []"
| "join sep [v] = v"
| "join sep (v # w # ws) = v @ sep @ join sep (w # ws)"

subsection \<open>Parsing\<close>

fun parseCSVLine_loop :: "string \<Rightarrow> string list \<Rightarrow> string \<Rightarrow> bool \<Rightarrow> string list" where
  \<comment> \<open>\<open>for (let char of line)\<close> with the variables \<open>result\<close>, \<open>current\<close>, \<open>inQuotes\<close>,
      and the last \<open>result.push(current)\<close>.\<close>
  "parseCSVLine_loop [] result current inQuotes = result @ [current]"
| "parseCSVLine_loop (ch # rest) result current inQuotes =
     (if ch = CHR 0x22 then parseCSVLine_loop rest result current (\<not> inQuotes)
      else if ch = CHR '','' \<and> \<not> inQuotes then parseCSVLine_loop rest (result @ [current]) [] inQuotes
      else parseCSVLine_loop rest result (current @ [ch]) inQuotes)"

definition parseCSVLine :: "string \<Rightarrow> string list" where
  "parseCSVLine line = parseCSVLine_loop line [] [] False"

definition or_zero :: "real option \<Rightarrow> real" where
  \<comment> \<open>\<open>parseFloat(s) || 0\<close>, the result of \<open>parseFloat\<close> being \<open>None\<close> for \<open>NaN\<close>.\<close>
  "or_zero r = (case r of None \<Rightarrow> 0 | Some v \<Rightarrow> v)"

definition line_values :: "string \<Rightarrow> string list" where
  \<comment> \<open>\<open>line.includes('\t') ? line.split('\t') : parseCSVLine(line)\<close>\<close>
  "line_values line =
     (if str_includes line [CHR 0x09] then split_on (CHR 0x09) line else parseCSVLine line)"

definition make_entry :: "(string \<Rightarrow> real option) \<Rightarrow> string list \<Rightarrow> transaction" where
  \<comment> \<open>The object literal of \<open>parseCSV\<close>, read only when \<open>values.length >= 6\<close>.\<close>
  "make_entry parseFloat values =
     \<lparr> date = trim (values ! 0),
       invoice_number = trim (values ! 1),
       grower_name = trim (values ! 2),
       product = trim (values ! 3),
       quantity = or_zero (parseFloat (values ! 4)),
       amount = or_zero (parseFloat (filter (\<lambda>c. c \<noteq> CHR ''$'' \<and> c \<noteq> CHR '','') (values ! 5))) \<rparr>"

fun parse_rows :: "(string \<Rightarrow> real option) \<Rightarrow> string list \<Rightarrow> transaction list" where
  \<comment> \<open>The loop of \<open>parseCSV\<close> in app.js over the lines from \<open>startIndex\<close> on.\<close>
  "parse_rows parseFloat [] = []"
| "parse_rows parseFloat (l # ls) =
     (let line = trim l in
      if line = [] then parse_rows parseFloat ls
      else
        let values = line_values line in
        if length values \<ge> 6 then
          (let entry = make_entry parseFloat values in
           if date entry \<noteq> [] \<and> grower_name entry \<noteq> [] \<and> product entry \<noteq> []
           then entry # parse_rows parseFloat ls
           else parse_rows parseFloat ls)
        else parse_rows parseFloat ls)"

fun server_parse_rows :: "(string \<Rightarrow> real option) \<Rightarrow> string list \<Rightarrow> transaction list" where
  \<comment> \<open>The loop of the server's \<open>parseCSV\<close>; its records also carry \<open>created_at\<close>, the
      time of the call, which is left out.\<close>
  "server_parse_rows parseFloat [] = []"
| "server_parse_rows parseFloat (l # ls) =
     (let line = trim l in
      if line = [] then server_parse_rows parseFloat ls
      else
        let values = line_values line in
        if length values \<ge> 6
        then make_entry parseFloat values # server_parse_rows parseFloat ls
        else server_parse_rows parseFloat ls)"

definition start_index :: "string \<Rightarrow> nat" where
  "start_index first =
     (let firstLine = toLowerCase first
      in if str_includes firstLine ''date'' \<or> str_includes firstLine ''invoice'' then 1 else 0)"

definition parseCSV :: "(string \<Rightarrow> real option) \<Rightarrow> string \<Rightarrow> js_error + transaction list" where
  \<comment> \<open>app.js. \<open>lines[0].toLowerCase()\<close> throws a TypeError when there is no first line.\<close>
  "parseCSV parseFloat text =
     (case split_on (CHR 0x0A) (trim text) of
        [] \<Rightarrow> Inl TypeError
      | first # rest \<Rightarrow>
          Inr (parse_rows parseFloat (drop (start_index first) (first # rest))))"

definition server_parseCSV :: "(string \<Rightarrow> real option) \<Rightarrow> string \<Rightarrow> js_error + transaction list" where
  "server_parseCSV parseFloat text =
     (case split_on (CHR 0x0A) (trim text) of
        [] \<Rightarrow> Inl TypeError
      | first # rest \<Rightarrow>
          Inr (server_parse_rows parseFloat (drop (start_index first) (first # rest))))"

subsection \<open>Export\<close>

definition headers :: "string list" where
  "headers = [''date'', ''invoice_number'', ''grower_name'', ''product'', ''quantity'', ''amount'']"

definition exportToCSV :: "(real \<Rightarrow> string) \<Rightarrow> transaction list \<Rightarrow> string option" where
  \<comment> \<open>app.js, from \<open>dataToExport\<close> on. \<open>numText\<close> stands for the conversion of a number to
      a string that \<open>Array.prototype.join\<close> applies. \<open>None\<close>: nothing is exported.\<close>
  "exportToCSV numText dataToExport =
     (if length dataToExport = 0 then None
      else
        let rows = map (\<lambda>d. [date d, invoice_number d, grower_name d, product d,
                               numText (quantity d), numText (amount d)]) dataToExport
        in Some (join [CHR 0x0A] (join '','' headers # map (join '','') rows)))"

definition text_or_empty :: "(real \<Rightarrow> string) \<Rightarrow> real \<Rightarrow> string" where
  \<comment> \<open>\<open>d[h] || ''\<close> on a number: 0 is falsy.\<close>
  "text_or_empty numText v = (if v = 0 then [] else numText v)"

definition generateCSV :: "(real \<Rightarrow> string) \<Rightarrow> transaction list \<Rightarrow> string" where
  \<comment> \<open>The server's export; \<open>d[h] || ''\<close> on a string is the string.\<close>
  "generateCSV numText data =
     (let rows = map (\<lambda>d. join '','' [date d, invoice_number d, grower_name d, product d,
                                          text_or_empty numText (quantity d),
                                          text_or_empty numText (amount d)]) data
      in join [CHR 0x0A] (join '','' headers # rows))"

section \<open>Reference definitions and sample data\<close>

text \<open>
  The notions the specification names, written from its words, to be compared with the
  functions above.
\<close>

definition sq_error :: "real list \<Rightarrow> real list \<Rightarrow> real \<Rightarrow> real \<Rightarrow> real" where
  \<comment> \<open>The sum of the squared residuals of the line \<open>a * x + b\<close> on the points.\<close>
  "sq_error x y a b = sum_list (map (\<lambda>(xi, yi). (yi - (a * xi + b))\<^sup>2) (zip x y))"

definition yoy_changes :: "real list \<Rightarrow> real list" where
  \<comment> \<open>The relative changes \<open>(v[i] - v[i-1]) / v[i-1]\<close> over the transitions whose prior
      value is strictly positive.\<close>
  "yoy_changes v =
     map (\<lambda>i. (v ! i - v ! (i - 1)) / v ! (i - 1))
         (filter (\<lambda>i. v ! (i - 1) > 0) [1 ..< length v])"

definition mean_or_zero :: "real list \<Rightarrow> real" where
  \<comment> \<open>The arithmetic mean; 0 when there is nothing to average.\<close>
  "mean_or_zero cs = (if cs = [] then 0 else sum_list cs / real (length cs))"

definition population_sd :: "real list \<Rightarrow> real" where
  \<comment> \<open>The population standard deviation (divisor \<open>n\<close>); 0 on the empty series.\<close>
  "population_sd vs =
     (if vs = [] then 0
      else
        let n = real (length vs);
            \<mu> = (\<Sum>i<length vs. vs ! i) / n
        in sqrt ((\<Sum>i<length vs. (vs ! i - \<mu>)\<^sup>2) / n))"

definition names :: "transaction list \<Rightarrow> string set" where
  \<comment> \<open>The growers of a set of transactions, as a set of names.\<close>
  "names data = grower_name ` set data"

definition revenue_sum :: "(string \<times> grower_summary) list \<Rightarrow> real" where
  \<comment> \<open>The sum, over the growers of the by-grower result, of their revenue.\<close>
  "revenue_sum byGrower = sum_list (map (\<lambda>(name, grower). g_revenue grower) byGrower)"

definition separator_free :: "string \<Rightarrow> bool" where
  \<comment> \<open>No comma, double quote, tab or line feed.\<close>
  "separator_free s =
     (\<forall>c\<in>set s. c \<noteq> CHR '','' \<and> c \<noteq> CHR 0x22 \<and> c \<noteq> CHR 0x09 \<and> c \<noteq> CHR 0x0A)"

definition plain_text :: "string \<Rightarrow> bool" where
  \<comment> \<open>A text field that the export writes, and the parser reads, as it is.\<close>
  "plain_text s = (separator_free s \<and> trim s = s)"

definition numeric_text :: "string \<Rightarrow> bool" where
  \<comment> \<open>The text of a number: no comma, no double quote, no white space.\<close>
  "numeric_text s = (\<forall>c\<in>set s. c \<noteq> CHR '','' \<and> c \<noteq> CHR 0x22 \<and> \<not> is_space c)"

definition exportable :: "(real \<Rightarrow> string) \<Rightarrow> transaction \<Rightarrow> bool" where
  "exportable numText d =
     (plain_text (date d) \<and> date d \<noteq> []
      \<and> plain_text (invoice_number d)
      \<and> plain_text (grower_name d) \<and> grower_name d \<noteq> []
      \<and> plain_text (product d) \<and> product d \<noteq> []
      \<and> numeric_text (numText (quantity d)) \<and> numeric_text (numText (amount d)))"

definition reread :: "(string \<Rightarrow> real option) \<Rightarrow> (real \<Rightarrow> string) \<Rightarrow> transaction \<Rightarrow> transaction" where
  \<comment> \<open>The record with its two numbers written as text and read back by \<open>parseCSV\<close>.\<close>
  "reread parseFloat numText d =
     d \<lparr> quantity := or_zero (parseFloat (numText (quantity d))),
         amount := or_zero (parseFloat
                      (filter (\<lambda>c. c \<noteq> CHR ''$'' \<and> c \<noteq> CHR '','') (numText (amount d)))) \<rparr>"

definition fields_of :: "(real \<Rightarrow> string) \<Rightarrow> transaction \<Rightarrow> string list" where
  \<comment> \<open>The six texts of an exported row.\<close>
  "fields_of numText d =
     [date d, invoice_number d, grower_name d, product d, numText (quantity d), numText (amount d)]"

definition sample_numText :: "real \<Rightarrow> string" where
  \<comment> \<open>The decimal text of the numbers of the samples below.\<close>
  "sample_numText v = (if v = 10 then ''10'' else if v = 2500 then ''2500'' else ''0'')"

definition sample_parseFloat :: "string \<Rightarrow> real option" where
  \<comment> \<open>\<open>parseFloat\<close> on the texts of the samples below; \<open>None\<close> on a text without a
      leading number.\<close>
  "sample_parseFloat s =
     (if s = ''10'' then Some 10 else if s = ''2500'' then Some 2500
      else if s = ''5'' then Some 5 else if s = ''100'' then Some 100
      else if s = ''0'' then Some 0 else None)"

definition sample_data :: "transaction list" where
  "sample_data =
     [\<lparr> date = ''2024-01-05'', invoice_number = ''INV-1'', grower_name = ''John Smith'',
        product = ''Corn Seed'', quantity = 10, amount = 2500 \<rparr>]"

definition comma_data :: "transaction list" where
  "comma_data =
     [\<lparr> date = ''2024-01-05'', invoice_number = ''INV-1'', grower_name = ''Smith, John'',
        product = ''Corn Seed'', quantity = 10, amount = 2500 \<rparr>]"

fun iso_before :: "string \<Rightarrow> string \<Rightarrow> bool" where
  \<comment> \<open>\<open>new Date(a) < new Date(b)\<close> on dates written \<open>YYYY-MM-DD\<close>, which are ordered as
      their texts are.\<close>
  "iso_before [] [] = False"
| "iso_before [] (b # bs) = True"
| "iso_before (a # as) [] = False"
| "iso_before (a # as) (b # bs) =
     ((of_char a :: nat) < of_char b \<or> (a = b \<and> iso_before as bs))"

definition whole_data :: "transaction list" where
  "whole_data =
     [\<lparr> date = ''2024-01-05'', invoice_number = ''INV-1'', grower_name = ''A'',
        product = ''Corn Seed'', quantity = 1, amount = 100 \<rparr>,
      \<lparr> date = ''2024-02-07'', invoice_number = ''INV-2'', grower_name = ''B'',
        product = ''Sorghum'', quantity = 2, amount = 250 \<rparr>,
      \<lparr> date = ''2024-03-09'', invoice_number = ''INV-3'', grower_name = ''A'',
        product = ''Alfalfa'', quantity = 3, amount = 300 \<rparr>]"

definition cents_data :: "transaction list" where
  \<comment> \<open>The amounts are the doubles that \<open>parseFloat\<close> gives for 0.1, 0.2 and 0.3.\<close>
  "cents_data =
     [\<lparr> date = ''2024-01-05'', invoice_number = ''INV-1'', grower_name = ''A'',
        product = ''Corn Seed'', quantity = 1, amount = to_double (1 / 10) \<rparr>,
      \<lparr> date = ''2024-02-07'', invoice_number = ''INV-2'', grower_name = ''B'',
        product = ''Sorghum'', quantity = 1, amount = to_double (2 / 10) \<rparr>,
      \<lparr> date = ''2024-03-09'', invoice_number = ''INV-3'', grower_name = ''B'',
        product = ''Alfalfa'', quantity = 1, amount = to_double (3 / 10) \<rparr>]"

definition constructor_data :: "transaction list" where
  "constructor_data =
     [\<lparr> date = ''2024-01-05'', invoice_number = ''INV-1'', grower_name = ''constructor'',
        product = ''Corn Seed'', quantity = 1, amount = 100 \<rparr>]"

definition scenario_years :: "real list" where
  "scenario_years = [2022, 2023, 2024, 2025, 2026]"

definition scenario_values :: "real list" where
  "scenario_values = [100000, 120000, 150000, 170000, 200000]"

definition scenario :: "yearly list" where
  "scenario =
     [\<lparr> y_year = 2022, y_revenue = 100000, y_growers = 10 \<rparr>,
      \<lparr> y_year = 2023, y_revenue = 120000, y_growers = 12 \<rparr>,
      \<lparr> y_year = 2024, y_revenue = 150000, y_growers = 15 \<rparr>,
      \<lparr> y_year = 2025, y_revenue = 170000, y_growers = 17 \<rparr>,
      \<lparr> y_year = 2026, y_revenue = 200000, y_growers = 20 \<rparr>]"

definition two_years :: "yearly list" where
  "two_years =
     [\<lparr> y_year = 2025, y_revenue = 100, y_growers = 1 \<rparr>,
      \<lparr> y_year = 2026, y_revenue = 0, y_growers = 0 \<rparr>]"

section \<open>Properties of the forecast engine\<close>

subsection \<open>Standard deviation and z-score\<close>

lemma standardDeviation_nonneg: "0 \<le> standardDeviation d"
proof -
  have "0 \<le> sum_list (map (\<lambda>v. (v - m)\<^sup>2) d)" for m :: real
    by (rule sum_list_nonneg) auto
  then show ?thesis by (simp add: standardDeviation_def Let_def)
qed

lemma getZScore_pos: "0 < getZScore c"
  by (simp add: getZScore_def zScores_def)

lemma margin_nonneg: "0 \<le> standardDeviation d * getZScore c"
  using standardDeviation_nonneg[of d] getZScore_pos[of c] by simp

lemma sum_list_index:
  "sum_list (map f vs) = (\<Sum>i<length vs. f (vs ! i))" for f :: "real \<Rightarrow> real"
  by (simp add: sum_list_sum_nth atLeast0LessThan)

lemma standardDeviation_population: "standardDeviation vs = population_sd vs"
  using sum_list_index[of "\<lambda>v. v" vs] sum_list_index[of "\<lambda>v. (v - c)\<^sup>2" vs for c]
  by (simp add: standardDeviation_def population_sd_def Let_def)

lemma standardDeviation_100_0: "standardDeviation [100, 0] = 50"
proof -
  have "sqrt 2500 = sqrt (50\<^sup>2)" by simp
  also have "\<dots> = 50" by (simp only: real_sqrt_abs abs_numeral)
  finally show ?thesis by (simp add: standardDeviation_def)
qed

lemma standardDeviation_1_0: "standardDeviation [1, 0] = 1 / 2"
proof -
  have "sqrt (1 / 4) = sqrt ((1 / 2)\<^sup>2)" by (simp add: power2_eq_square)
  also have "\<dots> = 1 / 2" by (simp only: real_sqrt_abs)
  finally show ?thesis by (simp add: standardDeviation_def power2_eq_square)
qed

subsection \<open>The three methods on a series without negative values\<close>

lemma growthRates_ge: "\<forall>v\<in>set d. 0 \<le> v \<Longrightarrow> \<forall>r\<in>set (growthRates d). -1 \<le> r"
  by (induction d rule: growthRates.induct) (auto simp: field_simps)

lemma sum_list_ge_neg_length:
  "\<forall>r\<in>set rs. -1 \<le> r \<Longrightarrow> - real (length rs) \<le> sum_list rs"
  by (induction rs) auto

lemma growthRateForecast_nonneg:
  assumes "\<forall>v\<in>set d. 0 \<le> v"
  shows "0 \<le> growthRateForecast d"
proof (cases "length d < 2")
  case True
  then show ?thesis using assms by (cases d) (auto simp: growthRateForecast_def)
next
  case False
  then have ne: "d \<noteq> []" by auto
  have l: "0 \<le> last d" using assms ne by simp
  let ?rs = "growthRates d"
  show ?thesis
  proof (cases "?rs = []")
    case True
    then show ?thesis using False l by (simp add: growthRateForecast_def)
  next
    case nonempty: False
    have "- real (length ?rs) \<le> sum_list ?rs"
      using growthRates_ge[OF assms] by (rule sum_list_ge_neg_length)
    then have "-1 \<le> sum_list ?rs / real (length ?rs)"
      using nonempty by (simp add: field_simps)
    then have "0 \<le> 1 + sum_list ?rs / real (length ?rs)" by simp
    then show ?thesis using False l nonempty by (simp add: growthRateForecast_def Let_def)
  qed
qed

lemma sum_list_map2_nonneg:
  "\<forall>v\<in>set d. 0 \<le> v \<Longrightarrow> \<forall>w\<in>set ws. 0 \<le> w \<Longrightarrow> 0 \<le> sum_list (map2 (*) d ws)"
  for d :: "real list"
  by (induction d arbitrary: ws) (auto simp: zip_Cons1 split: list.splits)

lemma weightedAverageForecast_nonneg:
  assumes "\<forall>v\<in>set d. 0 \<le> v"
  shows "0 \<le> weightedAverageForecast d"
proof -
  let ?ws = "map (\<lambda>i. real (i + 1)) [0 ..< length d]"
  have w: "\<forall>w\<in>set ?ws. 0 \<le> w" by auto
  have a: "0 \<le> sum_list (map2 (*) d ?ws)" using assms w by (rule sum_list_map2_nonneg)
  have b: "0 \<le> sum_list ?ws" by (rule sum_list_nonneg) auto
  have "0 \<le> sum_list (map2 (*) d ?ws) / sum_list ?ws" using a b by simp
  then show ?thesis by (simp add: weightedAverageForecast_def Let_def)
qed

subsection \<open>The forecast record\<close>

lemma projections_growth:
  "projections data ''growth'' =
     Some (growthRateForecast (map y_revenue data), growthRateForecast (map y_growers data))"
  by (simp add: projections_def)

lemma projections_weighted:
  "projections data ''weighted'' =
     Some (weightedAverageForecast (map y_revenue data),
           weightedAverageForecast (map y_growers data))"
  by (simp add: projections_def)

lemma calculateForecast_fields:
  assumes "calculateForecast data method confidence = Some r"
  obtains f g where "projections data method = Some (f, g)"
    and "revenue r = max 0 f"
    and "revenueLow r = max 0 (f - standardDeviation (map y_revenue data) * getZScore confidence)"
    and "revenueHigh r = f + standardDeviation (map y_revenue data) * getZScore confidence"
    and "growersLow r =
           max 0 (js_round (g - standardDeviation (map y_growers data) * getZScore confidence))"
    and "growersHigh r =
           js_round (g + standardDeviation (map y_growers data) * getZScore confidence)"
  using assms by (auto simp: calculateForecast_def Let_def split: option.splits)

lemma calculateForecast_defined:
  "projections data method = Some p \<Longrightarrow> \<exists>r. calculateForecast data method confidence = Some r"
  by (cases p) (simp add: calculateForecast_def Let_def)

lemma forecast_two_years_linear:
  "calculateForecast two_years ''linear'' 0.8 =
     Some \<lparr> revenue = 0, revenueLow = 0, revenueHigh = -36,
            growers = 0, growersLow = 0, growersHigh = 0 \<rparr>"
proof -
  have p: "projections two_years ''linear'' = Some (-100, -1)"
    by (simp add: projections_def two_years_def linearRegression_def Let_def)
  have z: "getZScore 0.8 = 1.28" by (simp add: getZScore_def zScores_def)
  have s1: "standardDeviation (map y_revenue two_years) = 50"
    by (simp add: two_years_def standardDeviation_100_0)
  have s2: "standardDeviation (map y_growers two_years) = 1 / 2"
    by (simp add: two_years_def standardDeviation_1_0)
  have r1: "js_round (-1) = -1" by (simp add: js_round_def)
  have r2: "js_round (- (41 / 25)) = -2" by (simp add: js_round_def)
  have r3: "js_round (- (9 / 25)) = 0" by (simp add: js_round_def)
  show ?thesis
    unfolding calculateForecast_def p z s1 s2 Let_def
    by (simp add: r1 r2 r3)
qed

subsection \<open>Ordering of the confidence band\<close>

text \<open>
  C1 (amended). Whenever \<open>calculateForecast\<close> yields a record, \<open>revenueLow\<close> is at least 0
  and at most \<open>revenue\<close>, and \<open>revenue\<close> is at most \<open>revenueHigh\<close> exactly when
  \<open>revenueHigh\<close>, which is never floored, is not negative. For the methods \<open>growth\<close> and
  \<open>weighted\<close> on a series without negative revenue, at every confidence level, the record
  exists and \<open>revenueLow \<le> revenue \<le> revenueHigh\<close>.
\<close>

theorem forecast_band_order:
  "(calculateForecast data method confidence = Some r \<longrightarrow>
      0 \<le> revenueLow r \<and> revenueLow r \<le> revenue r
      \<and> (revenue r \<le> revenueHigh r) = (0 \<le> revenueHigh r))
   \<and> ((method = ''growth'' \<or> method = ''weighted'') \<and> (\<forall>d\<in>set data. 0 \<le> y_revenue d) \<longrightarrow>
        (\<exists>r'. calculateForecast data method confidence = Some r'
           \<and> revenueLow r' \<le> revenue r' \<and> revenue r' \<le> revenueHigh r'))"
proof -
  let ?m = "standardDeviation (map y_revenue data) * getZScore confidence"
  have m: "0 \<le> ?m" by (rule margin_nonneg)
  have general: "0 \<le> revenueLow q \<and> revenueLow q \<le> revenue q
      \<and> (revenue q \<le> revenueHigh q) = (0 \<le> revenueHigh q)"
    if "calculateForecast data method confidence = Some q" for q
  proof -
    from that obtain f g where "revenue q = max 0 f" "revenueLow q = max 0 (f - ?m)"
      "revenueHigh q = f + ?m"
      by (rule calculateForecast_fields)
    then show ?thesis using m by auto
  qed
  have special: "\<exists>r'. calculateForecast data method confidence = Some r'
           \<and> revenueLow r' \<le> revenue r' \<and> revenue r' \<le> revenueHigh r'"
    if a: "method = ''growth'' \<or> method = ''weighted''" and b: "\<forall>d\<in>set data. 0 \<le> y_revenue d"
  proof -
    have nn: "\<forall>v\<in>set (map y_revenue data). 0 \<le> v" using b by simp
    obtain f g where p: "projections data method = Some (f, g)" and f: "0 \<le> f"
      using a growthRateForecast_nonneg[OF nn] weightedAverageForecast_nonneg[OF nn]
      by (auto simp: projections_growth projections_weighted)
    from calculateForecast_defined[OF p] obtain q
      where q: "calculateForecast data method confidence = Some q" by blast
    then obtain f' g' where p': "projections data method = Some (f', g')"
      and v: "revenue q = max 0 f'" "revenueLow q = max 0 (f' - ?m)" "revenueHigh q = f' + ?m"
      by (rule calculateForecast_fields)
    have "f' = f" using p p' by simp
    then have "revenueLow q \<le> revenue q \<and> revenue q \<le> revenueHigh q" using v m f by auto
    then show ?thesis using q by blast
  qed
  show ?thesis using general special by blast
qed

text \<open>
  The theorem at the scenario series of the specification, method \<open>growth\<close>, level 0.90.
\<close>

theorem forecast_band_order_witness:
  "calculateForecast scenario ''growth'' 0.9 \<noteq> None
   \<and> revenueLow (the (calculateForecast scenario ''growth'' 0.9))
        \<le> revenue (the (calculateForecast scenario ''growth'' 0.9))
   \<and> revenue (the (calculateForecast scenario ''growth'' 0.9))
        \<le> revenueHigh (the (calculateForecast scenario ''growth'' 0.9))
   \<and> 0 \<le> revenueHigh (the (calculateForecast scenario ''growth'' 0.9))"
proof -
  have h: "(''growth'' = ''growth'' \<or> ''growth'' = ''weighted'') \<and> (\<forall>d\<in>set scenario. 0 \<le> y_revenue d)"
    by (simp add: scenario_def)
  from forecast_band_order[of scenario "''growth''" "0.9"] h obtain q
    where q: "calculateForecast scenario ''growth'' 0.9 = Some q"
      and o: "revenueLow q \<le> revenue q" "revenue q \<le> revenueHigh q" by blast
  from forecast_band_order[of scenario "''growth''" "0.9" q] q
  have "(revenue q \<le> revenueHigh q) = (0 \<le> revenueHigh q)" by blast
  then show ?thesis using q o by simp
qed

text \<open>
  The claim as stated fails for the linear method: on the series \<open>(2025, 100), (2026, 0)\<close>
  at level 0.80 the fitted line gives \<open>-100\<close> for 2027, the margin is \<open>50 * 1.28 = 64\<close>,
  so \<open>revenue\<close> is 0 and \<open>revenueHigh\<close> is \<open>-36\<close>.
\<close>

theorem forecast_band_order_counterexample:
  "calculateForecast two_years ''linear'' 0.8 =
     Some \<lparr> revenue = 0, revenueLow = 0, revenueHigh = -36,
            growers = 0, growersLow = 0, growersHigh = 0 \<rparr>"
  by (rule forecast_two_years_linear)

subsection \<open>The confidence band\<close>

lemma getZScore_table:
  "getZScore 0.80 = 1.28" "getZScore 0.90 = 1.645" "getZScore 0.95 = 1.96"
  by (simp_all add: getZScore_def zScores_def)

lemma getZScore_other: "c \<noteq> 0.80 \<Longrightarrow> c \<noteq> 0.90 \<Longrightarrow> c \<noteq> 0.95 \<Longrightarrow> getZScore c = 1.645"
  by (simp add: getZScore_def zScores_def)

text \<open>
  C9 (amended). The z-score is 1.28 at level 0.80, 1.645 at 0.90, 1.96 at 0.95 and 1.645 at
  every other level. With \<open>f\<close> the projected revenue, the upper bound is \<open>f\<close> plus the
  population standard deviation of the revenue series times the z-score, and the lower
  bound is \<open>f\<close> minus that margin, floored at 0. The bounds of the grower count are built
  the same way from the grower series and rounded by \<open>Math.round\<close>.
\<close>

theorem confidence_band:
  "getZScore 0.80 = 1.28 \<and> getZScore 0.90 = 1.645 \<and> getZScore 0.95 = 1.96
   \<and> (c \<noteq> 0.80 \<and> c \<noteq> 0.90 \<and> c \<noteq> 0.95 \<longrightarrow> getZScore c = 1.645)
   \<and> (calculateForecast data method confidence = Some r \<longrightarrow>
        (\<exists>f g. projections data method = Some (f, g)
           \<and> revenueHigh r = f + population_sd (map y_revenue data) * getZScore confidence
           \<and> revenueLow r = max 0 (f - population_sd (map y_revenue data) * getZScore confidence)
           \<and> growersHigh r = js_round (g + population_sd (map y_growers data) * getZScore confidence)
           \<and> growersLow r =
               max 0 (js_round (g - population_sd (map y_growers data) * getZScore confidence))))"
proof -
  have band: "\<exists>f g. projections data method = Some (f, g)
           \<and> revenueHigh r = f + population_sd (map y_revenue data) * getZScore confidence
           \<and> revenueLow r = max 0 (f - population_sd (map y_revenue data) * getZScore confidence)
           \<and> growersHigh r = js_round (g + population_sd (map y_growers data) * getZScore confidence)
           \<and> growersLow r =
               max 0 (js_round (g - population_sd (map y_growers data) * getZScore confidence))"
    if "calculateForecast data method confidence = Some r"
    using that by (rule calculateForecast_fields) (simp add: standardDeviation_population)
  show ?thesis using getZScore_table getZScore_other[of c] band by blast
qed

text \<open>
  The theorem at level 0.5, which is not in the table, and at the two-year series with
  the linear method.
\<close>

theorem confidence_band_witness:
  "getZScore 0.5 = 1.645
   \<and> revenueHigh \<lparr> revenue = 0, revenueLow = 0, revenueHigh = -36,
            growers = 0, growersLow = 0, growersHigh = 0 \<rparr>
       = -100 + population_sd (map y_revenue two_years) * getZScore 0.8"
proof -
  let ?r = "\<lparr> revenue = 0, revenueLow = 0, revenueHigh = -36,
            growers = 0, growersLow = 0, growersHigh = (0::real) \<rparr>"
  have p: "projections two_years ''linear'' = Some (-100, -1)"
    by (simp add: projections_def two_years_def linearRegression_def Let_def)
  have c: "(0.5::real) \<noteq> 0.80 \<and> (0.5::real) \<noteq> 0.90 \<and> (0.5::real) \<noteq> 0.95" by simp
  from confidence_band[of "0.5" two_years "''linear''" "0.8" ?r] c forecast_two_years_linear
  have z: "getZScore 0.5 = 1.645"
    and "\<exists>f g. projections two_years ''linear'' = Some (f, g)
           \<and> revenueHigh ?r = f + population_sd (map y_revenue two_years) * getZScore 0.8"
    by blast+
  then show ?thesis using p by auto
qed

text \<open>
  The lower bound is not always the projection minus the margin: on the series
  \<open>(2025, 100), (2026, 0)\<close> with the growth method at level 0.90 the projection is 0, the
  margin is \<open>50 * 1.645 = 82.25\<close>, and \<open>revenueLow\<close> is 0, not \<open>-82.25\<close>.
\<close>

theorem confidence_band_counterexample:
  "map_option revenueLow (calculateForecast two_years ''growth'' 0.9) = Some 0
   \<and> projections two_years ''growth'' = Some (0, 0)
   \<and> 0 - standardDeviation (map y_revenue two_years) * getZScore 0.9 = - 82.25"
proof -
  have p: "projections two_years ''growth'' = Some (0, 0)"
    by (simp add: projections_def two_years_def growthRateForecast_def)
  have s1: "standardDeviation (map y_revenue two_years) = 50"
    by (simp add: two_years_def standardDeviation_100_0)
  have z: "getZScore 0.9 = 1.645" by (simp add: getZScore_def zScores_def)
  show ?thesis unfolding calculateForecast_def p s1 z Let_def by simp
qed

subsection \<open>Weighted average of a single point\<close>

text \<open>
  C10. On a series of one point \<open>[v]\<close> the weighted-average forecast is \<open>0.95 * v\<close>: the
  weighted average and the mean are both \<open>v\<close>, the test \<open>lastValue > avgValue\<close> is false
  and the multiplier \<open>0.95\<close> applies.
\<close>

theorem weightedAverageForecast_single:
  "weightedAverageForecast [v] = 0.95 * v"
  by (simp add: weightedAverageForecast_def)

subsection \<open>Growth rate\<close>

lemma upt_shift: "[1 ..< Suc (Suc n)] = 1 # map Suc [1 ..< Suc n]"
  by (metis One_nat_def Suc_le_mono le0 map_Suc_upt upt_conv_Cons less_Suc_eq_le)

lemma yoy_changes_Cons:
  "yoy_changes (p # c # rest) =
     (if p > 0 then [(c - p) / p] else []) @ yoy_changes (c # rest)"
proof -
  let ?L = "[1 ..< Suc (length rest)]"
  let ?v = "p # c # rest" and ?w = "c # rest"
  let ?F = "\<lambda>i. (?v ! i - ?v ! (i - 1)) / ?v ! (i - 1)" and ?P = "\<lambda>i. ?v ! (i - 1) > 0"
  let ?G = "\<lambda>i. (?w ! i - ?w ! (i - 1)) / ?w ! (i - 1)" and ?Q = "\<lambda>i. ?w ! (i - 1) > 0"
  have u: "[1 ..< length ?v] = 1 # map Suc ?L" using upt_shift[of "length rest"] by simp
  have P: "?P (Suc i) = ?Q i" if "i \<in> set ?L" for i using that by (auto simp: nth_Cons')
  have F: "?F (Suc i) = ?G i" if "i \<in> set ?L" for i using that by (auto simp: nth_Cons')
  have f: "filter (\<lambda>i. ?P (Suc i)) ?L = filter ?Q ?L" using P by (intro filter_cong) auto
  have "map ?F (filter ?P (map Suc ?L)) = map (\<lambda>i. ?F (Suc i)) (filter (\<lambda>i. ?P (Suc i)) ?L)"
    by (simp add: filter_map comp_def)
  also have "\<dots> = map (\<lambda>i. ?F (Suc i)) (filter ?Q ?L)" by (simp only: f)
  also have "\<dots> = map ?G (filter ?Q ?L)" using F by (intro map_cong) auto
  finally have t: "map ?F (filter ?P (map Suc ?L)) = yoy_changes ?w"
    by (simp add: yoy_changes_def)
  have "yoy_changes ?v = map ?F (filter ?P (1 # map Suc ?L))"
    unfolding yoy_changes_def u ..
  also have "\<dots> = (if p > 0 then [(c - p) / p] else []) @ map ?F (filter ?P (map Suc ?L))"
    by simp
  finally show ?thesis by (simp only: t)
qed

lemma growthRates_yoy: "growthRates v = yoy_changes v"
proof (induction v rule: growthRates.induct)
  case (1 prev cur rest)
  then show ?case by (simp add: yoy_changes_Cons)
qed (simp_all add: yoy_changes_def)

text \<open>
  C5. On a series of at least two points the growth-rate forecast is the last value times
  one plus the arithmetic mean of the relative changes \<open>(v[i] - v[i-1]) / v[i-1]\<close> over the
  transitions whose prior value is strictly positive (the mean being 0 when there is no
  such transition). A single point is returned unchanged, and the empty series gives 0.
\<close>

theorem growthRateForecast_mean_change:
  "growthRateForecast [] = 0
   \<and> growthRateForecast [v] = v
   \<and> (2 \<le> length data \<longrightarrow>
        growthRateForecast data = last data * (1 + mean_or_zero (yoy_changes data)))"
  by (auto simp: growthRateForecast_def growthRates_yoy mean_or_zero_def Let_def)

text \<open>The theorem at the scenario series of the specification.\<close>

theorem growthRateForecast_mean_change_witness:
  "2 \<le> length scenario_values
   \<and> growthRateForecast scenario_values
       = last scenario_values * (1 + mean_or_zero (yoy_changes scenario_values))"
proof -
  have h: "2 \<le> length scenario_values" by (simp add: scenario_values_def)
  then show ?thesis using growthRateForecast_mean_change[where data = scenario_values] by blast
qed

subsection \<open>Least squares\<close>

lemma sq_error_expand:
  "length x = length y \<Longrightarrow>
   sq_error x y a b =
     sum_list (map (\<lambda>v. v * v) y) - 2 * a * sum_list (map2 (*) x y) - 2 * b * sum_list y
     + a\<^sup>2 * sum_list (map (\<lambda>xi. xi * xi) x) + 2 * a * b * sum_list x + real (length x) * b\<^sup>2"
  unfolding sq_error_def
  by (induction x y rule: list_induct2) (simp_all add: algebra_simps power2_eq_square)

lemma line_squares:
  "sum_list (map (\<lambda>xi. (p * xi + q)\<^sup>2) x) =
     p\<^sup>2 * sum_list (map (\<lambda>xi. xi * xi) x) + 2 * p * q * sum_list x + real (length x) * q\<^sup>2"
  for p q :: real
  by (induction x) (simp_all add: algebra_simps power2_eq_square)

lemma member_le_sum_list_real:
  "\<forall>v\<in>set vs. 0 \<le> v \<Longrightarrow> u \<in> set vs \<Longrightarrow> u \<le> sum_list vs" for u :: real
  by (induction vs) (auto simp: sum_list_nonneg add_increasing add_increasing2)

lemma denominator_pos:
  assumes "u \<in> set x" "v \<in> set x" "u \<noteq> v"
  shows "0 < real (length x) * sum_list (map (\<lambda>xi. xi * xi) x) - sum_list x * sum_list x"
proof -
  let ?n = "real (length x)" and ?S = "sum_list x" and ?Q = "sum_list (map (\<lambda>xi. xi * xi) x)"
  have n: "0 < ?n" using assms(1) by (cases x) auto
  obtain w where w: "w \<in> set x" "?n * w - ?S \<noteq> 0"
  proof (cases "?n * u - ?S = 0")
    case True
    then have "?n * u = ?S" by simp
    moreover have "?n * u \<noteq> ?n * v" using assms(3) n by simp
    ultimately have "?n * v - ?S \<noteq> 0" by simp
    then show ?thesis using that assms(2) by blast
  next
    case False then show ?thesis using that assms(1) by blast
  qed
  let ?sq = "map (\<lambda>xi. (?n * xi + (- ?S))\<^sup>2) x"
  have "(?n * w + (- ?S))\<^sup>2 \<in> set ?sq" using w(1) by (auto simp: image_iff)
  moreover have "\<forall>t\<in>set ?sq. 0 \<le> t" by auto
  ultimately have "(?n * w + (- ?S))\<^sup>2 \<le> sum_list ?sq" by (metis member_le_sum_list_real)
  moreover have "0 < (?n * w + (- ?S))\<^sup>2" using w(2) by simp
  ultimately have "0 < sum_list ?sq" by linarith
  also have "sum_list ?sq = ?n * (?n * ?Q - ?S * ?S)"
    unfolding line_squares by (simp add: algebra_simps power2_eq_square)
  finally show ?thesis using n by (simp add: zero_less_mult_iff)
qed

lemma normal_equations:
  fixes n Sx Sy Sxy Sxx a b :: real
  assumes n: "n \<noteq> 0" and den: "n * Sxx - Sx * Sx \<noteq> 0"
    and a: "a = (n * Sxy - Sx * Sy) / (n * Sxx - Sx * Sx)"
    and b: "b = (Sy - a * Sx) / n"
  shows "Sy - a * Sx - n * b = 0" and "Sxy - a * Sxx - b * Sx = 0"
proof -
  show "Sy - a * Sx - n * b = 0" using n by (simp add: b)
  have A: "a * (n * Sxx - Sx * Sx) = n * Sxy - Sx * Sy" using den by (simp add: a)
  have B: "n * b = Sy - a * Sx" using n by (simp add: b)
  have "n * (Sxy - a * Sxx - b * Sx) =
        (n * Sxy - Sx * Sy) - a * (n * Sxx - Sx * Sx) + (Sy - a * Sx - n * b) * Sx"
    by (simp add: algebra_simps)
  also have "\<dots> = 0" by (simp only: A B) simp
  finally show "Sxy - a * Sxx - b * Sx = 0" using n by simp
qed

lemma least_squares_minimum:
  assumes len: "length x = length y" and n0: "x \<noteq> []"
    and den: "real (length x) * sum_list (map (\<lambda>xi. xi * xi) x) - sum_list x * sum_list x \<noteq> 0"
    and a_def: "a = (real (length x) * sum_list (map2 (*) x y) - sum_list x * sum_list y)
                / (real (length x) * sum_list (map (\<lambda>xi. xi * xi) x) - sum_list x * sum_list x)"
    and b_def: "b = (sum_list y - a * sum_list x) / real (length x)"
  shows "sq_error x y a b \<le> sq_error x y a' b'"
proof -
  let ?n = "real (length x)" and ?Sx = "sum_list x" and ?Sy = "sum_list y"
  let ?Sxy = "sum_list (map2 (*) x y)" and ?Sxx = "sum_list (map (\<lambda>xi. xi * xi) x)"
  have n: "?n \<noteq> 0" using n0 by simp
  have e1: "?Sy - a * ?Sx - ?n * b = 0" and e2: "?Sxy - a * ?Sxx - b * ?Sx = 0"
    using normal_equations[OF n den a_def b_def] by blast+
  have q: "0 \<le> sum_list (map (\<lambda>xi. ((a' - a) * xi + (b' - b))\<^sup>2) x)"
    by (rule sum_list_nonneg) auto
  have "sq_error x y a' b' - sq_error x y a b =
        sum_list (map (\<lambda>xi. ((a' - a) * xi + (b' - b))\<^sup>2) x)
        - 2 * (a' - a) * (?Sxy - a * ?Sxx - b * ?Sx) - 2 * (b' - b) * (?Sy - a * ?Sx - ?n * b)"
    unfolding sq_error_expand[OF len] line_squares
    by (simp add: algebra_simps power2_eq_square)
  then show ?thesis using q by (simp add: e1 e2)
qed

lemma linearRegression_value:
  assumes len: "length x = length y" and n0: "x \<noteq> []"
    and den: "real (length x) * sum_list (map (\<lambda>xi. xi * xi) x) - sum_list x * sum_list x \<noteq> 0"
    and a_def: "a = (real (length x) * sum_list (map2 (*) x y) - sum_list x * sum_list y)
                / (real (length x) * sum_list (map (\<lambda>xi. xi * xi) x) - sum_list x * sum_list x)"
    and b_def: "b = (sum_list y - a * sum_list x) / real (length x)"
  shows "linearRegression x y t = Some (a * t + b)"
  using len n0 den by (simp add: linearRegression_def Let_def a_def b_def)

lemma linearRegression_scenario:
  "linearRegression scenario_years scenario_values t = Some (25000 * t - 50452000)"
  by (simp add: linearRegression_def scenario_years_def scenario_values_def Let_def field_simps)

lemma two_distinct:
  assumes "2 \<le> card (set x)"
  obtains u v where "u \<in> set x" "v \<in> set x" "u \<noteq> v"
proof -
  have "\<not> card (set x) \<le> Suc 0" using assms by simp
  then have "\<not> (\<forall>a\<in>set x. \<forall>b\<in>set x. a = b)"
    by (simp add: card_le_Suc0_iff_eq)
  then show ?thesis using that by blast
qed

text \<open>
  C6 (amended). \<open>linearRegression\<close> returns 0 on the empty series. On points with at least
  two different years it is the least-squares line evaluated at the target: the line
  \<open>a * t + b\<close> it evaluates has the smallest sum of squared residuals among all lines. On
  the scenario series the line is \<open>25000 * t - 50452000\<close>: the slope is 25000 per year and
  the value projected for 2027 is 223000.
\<close>

theorem linearRegression_least_squares:
  "linearRegression [] y t = Some 0
   \<and> (length y = length x \<and> 2 \<le> card (set x) \<longrightarrow>
        (\<exists>a b. (\<forall>t'. linearRegression x y t' = Some (a * t' + b))
               \<and> (\<forall>a' b'. sq_error x y a b \<le> sq_error x y a' b')))
   \<and> (\<forall>t'. linearRegression scenario_years scenario_values t' = Some (25000 * t' - 50452000))
   \<and> linearRegression scenario_years scenario_values 2027 = Some 223000"
proof -
  have empty: "linearRegression [] y t = Some 0" by (simp add: linearRegression_def)
  have fit: "\<exists>a b. (\<forall>t'. linearRegression x y t' = Some (a * t' + b))
               \<and> (\<forall>a' b'. sq_error x y a b \<le> sq_error x y a' b')"
    if len: "length y = length x" and two: "2 \<le> card (set x)"
  proof -
    from two obtain u v where uv: "u \<in> set x" "v \<in> set x" "u \<noteq> v" by (rule two_distinct)
    have n0: "x \<noteq> []" using uv(1) by auto
    have den: "real (length x) * sum_list (map (\<lambda>xi. xi * xi) x) - sum_list x * sum_list x \<noteq> 0"
      using denominator_pos[OF uv] by simp
    define a where "a = (real (length x) * sum_list (map2 (*) x y) - sum_list x * sum_list y)
                / (real (length x) * sum_list (map (\<lambda>xi. xi * xi) x) - sum_list x * sum_list x)"
    define b where "b = (sum_list y - a * sum_list x) / real (length x)"
    have "linearRegression x y t' = Some (a * t' + b)" for t'
      using len[symmetric] n0 den a_def b_def by (rule linearRegression_value)
    moreover have "sq_error x y a b \<le> sq_error x y a' b'" for a' b'
      using len[symmetric] n0 den a_def b_def by (rule least_squares_minimum)
    ultimately show ?thesis by blast
  qed
  have "linearRegression scenario_years scenario_values 2027 = Some 223000"
    using linearRegression_scenario[of 2027] by simp
  then show ?thesis using empty fit linearRegression_scenario by blast
qed

text \<open>
  The theorem at the scenario series: its line is no worse than the horizontal line
  through the mean, 148000.
\<close>

theorem linearRegression_least_squares_witness:
  "length scenario_values = length scenario_years \<and> 2 \<le> card (set scenario_years)
   \<and> sq_error scenario_years scenario_values 25000 (- 50452000)
        \<le> sq_error scenario_years scenario_values 0 148000"
proof -
  have h: "length scenario_values = length scenario_years \<and> 2 \<le> card (set scenario_years)"
    by (simp add: scenario_values_def scenario_years_def)
  from linearRegression_least_squares[where x = scenario_years and y = scenario_values] h
  obtain a b where ab: "\<forall>t'. linearRegression scenario_years scenario_values t' = Some (a * t' + b)"
    and least: "\<forall>a' b'. sq_error scenario_years scenario_values a b
                  \<le> sq_error scenario_years scenario_values a' b'"
    and val: "\<forall>t'. linearRegression scenario_years scenario_values t' = Some (25000 * t' - 50452000)"
    by blast
  have "a * 0 + b = 25000 * 0 - 50452000" using ab val by (metis option.inject)
  then have b: "b = - 50452000" by simp
  have "a * 1 + b = 25000 * 1 - 50452000" using ab val by (metis option.inject)
  then have a: "a = 25000" using b by simp
  show ?thesis using h least a b by blast
qed

text \<open>
  The value projected for 2027 is 223000, which is 2000 below the 225000 of the claim.
\<close>

theorem linearRegression_least_squares_counterexample:
  "linearRegression scenario_years scenario_values 2027 = Some 223000
   \<and> 225000 - the (linearRegression scenario_years scenario_values 2027) = 2000"
  using linearRegression_scenario[of 2027] by simp

section \<open>Properties of the retention analyzer\<close>

lemma foldl_set_add_set: "set (foldl (\<lambda>s v. set_add v s) acc vs) = set acc \<union> set vs"
  by (induction vs arbitrary: acc) (auto simp: set_add_def)

lemma foldl_set_add_distinct:
  "distinct acc \<Longrightarrow> distinct (foldl (\<lambda>s v. set_add v s) acc vs)"
  by (induction vs arbitrary: acc) (auto simp: set_add_def)

lemma set_new_Set: "set (new_Set vs) = set vs"
  by (simp add: new_Set_def foldl_set_add_set)

lemma distinct_new_Set: "distinct (new_Set vs)"
  by (simp add: new_Set_def foldl_set_add_distinct)

lemma length_new_Set: "length (new_Set vs) = card (set vs)"
  using distinct_card[OF distinct_new_Set, of vs] by (simp add: set_new_Set)

lemma new_Set_Nil_iff: "new_Set vs = [] \<longleftrightarrow> vs = []"
  using set_new_Set[of vs] by (metis set_empty)

lemma length_filter_new_Set: "length (filter P (new_Set vs)) = card {v \<in> set vs. P v}"
proof -
  have "distinct (filter P (new_Set vs))" using distinct_new_Set by (rule distinct_filter)
  then have "card (set (filter P (new_Set vs))) = length (filter P (new_Set vs))"
    by (rule distinct_card)
  then show ?thesis by (simp add: set_new_Set)
qed

lemma inter_set: "{v \<in> A. v \<in> B} = A \<inter> B" and diff_set: "{v \<in> A. v \<notin> B} = A - B"
  by auto

lemma stats_fields:
  "returningGrowers (updateGrowerStats cur prev) = card (names cur \<inter> names prev)"
  "newGrowers (updateGrowerStats cur prev) = card (names cur - names prev)"
  "lostGrowers (updateGrowerStats cur prev) = card (names prev - names cur)"
  by (simp_all add: updateGrowerStats_def Let_def length_filter_new_Set set_new_Set names_def
        inter_set diff_set)

lemma entry_fields:
  "e_returningGrowers (retention_analysis_entry tf yr cur prev) = card (names cur \<inter> names prev)"
  "e_newGrowers (retention_analysis_entry tf yr cur prev) = card (names cur - names prev)"
  "e_lostGrowers (retention_analysis_entry tf yr cur prev) = card (names prev - names cur)"
  "totalGrowers (retention_analysis_entry tf yr cur prev) = card (names cur)"
  by (simp_all add: retention_analysis_entry_def Let_def length_filter_new_Set set_new_Set
        length_new_Set names_def inter_set diff_set)

lemma card_split: "finite A \<Longrightarrow> card (A - B) + card (A \<inter> B) = card A"
  by (metis Diff_Diff_Int Diff_subset card_Diff_subset card_mono diff_add_inverse2 finite_Diff le_add_diff_inverse2 add.commute)

lemma finite_names: "finite (names d)" by (simp add: names_def)

text \<open>
  C2. With the growers of a year taken as the set of the names in its transactions, the
  counts of \<open>updateGrowerStats\<close> and of the server's retention analysis are the sizes of
  \<open>current \<inter> previous\<close> (returning), \<open>current - previous\<close> (new) and
  \<open>previous - current\<close> (lost); new plus returning is the number of current growers and
  lost plus returning the number of previous growers.
\<close>

theorem retention_partition:
  "newGrowers (updateGrowerStats cur prev) + returningGrowers (updateGrowerStats cur prev)
     = card (names cur)
   \<and> lostGrowers (updateGrowerStats cur prev) + returningGrowers (updateGrowerStats cur prev)
     = card (names prev)
   \<and> returningGrowers (updateGrowerStats cur prev) = card (names cur \<inter> names prev)
   \<and> newGrowers (updateGrowerStats cur prev) = card (names cur - names prev)
   \<and> lostGrowers (updateGrowerStats cur prev) = card (names prev - names cur)
   \<and> e_newGrowers (retention_analysis_entry tf yr cur prev)
       + e_returningGrowers (retention_analysis_entry tf yr cur prev)
     = totalGrowers (retention_analysis_entry tf yr cur prev)
   \<and> totalGrowers (retention_analysis_entry tf yr cur prev) = card (names cur)
   \<and> e_lostGrowers (retention_analysis_entry tf yr cur prev)
       + e_returningGrowers (retention_analysis_entry tf yr cur prev)
     = card (names prev)
   \<and> e_returningGrowers (retention_analysis_entry tf yr cur prev) = card (names cur \<inter> names prev)
   \<and> e_newGrowers (retention_analysis_entry tf yr cur prev) = card (names cur - names prev)
   \<and> e_lostGrowers (retention_analysis_entry tf yr cur prev) = card (names prev - names cur)"
  using card_split[OF finite_names, of cur "names prev"] card_split[OF finite_names, of prev "names cur"]
  by (simp add: stats_fields entry_fields Int_commute)

lemma rate_value:
  "retentionRate (updateGrowerStats cur prev) =
     (if card (names prev) = 0 then 0
      else real (card (names cur \<inter> names prev)) / real (card (names prev)) * 100)"
  by (simp add: updateGrowerStats_def Let_def length_filter_new_Set set_new_Set length_new_Set
        new_Set_Nil_iff names_def inter_set)

lemma entry_rate:
  "e_retentionRate (retention_analysis_entry tf yr cur prev) =
     (if card (names prev) = 0 then Inr 0
      else Inl (tf (real (card (names cur \<inter> names prev)) / real (card (names prev)) * 100)))"
  by (simp add: retention_analysis_entry_def Let_def length_filter_new_Set set_new_Set
        length_new_Set new_Set_Nil_iff names_def inter_set)

text \<open>
  C7. The retention rate of \<open>updateGrowerStats\<close> is the number of returning growers
  divided by the number of previous growers, times 100; it lies between 0 and 100 and it
  is 0 when the previous year has no growers, where nothing is divided. The server
  reports the same quantity through \<open>toFixed(1)\<close>, and the number 0 when the previous
  year has no growers.
\<close>

theorem retention_rate_range:
  "retentionRate (updateGrowerStats cur prev) =
     (if card (names prev) = 0 then 0
      else real (card (names cur \<inter> names prev)) / real (card (names prev)) * 100)
   \<and> 0 \<le> retentionRate (updateGrowerStats cur prev)
   \<and> retentionRate (updateGrowerStats cur prev) \<le> 100
   \<and> retentionRate (updateGrowerStats cur []) = 0
   \<and> e_retentionRate (retention_analysis_entry tf yr cur prev) =
     (if card (names prev) = 0 then Inr 0
      else Inl (tf (real (card (names cur \<inter> names prev)) / real (card (names prev)) * 100)))"
proof -
  have le: "card (names cur \<inter> names prev) \<le> card (names prev)"
    by (rule card_mono) (auto simp: finite_names)
  have "real (card (names cur \<inter> names prev)) / real (card (names prev)) * 100 \<le> 100"
    if "card (names prev) \<noteq> 0"
    using le that by (simp add: field_simps)
  then show ?thesis by (simp add: rate_value entry_rate names_def)
qed

section \<open>Properties of the aggregation engine\<close>

subsection \<open>Whole numbers are added without rounding\<close>

lemma round_half_even_of_int: "round_half_even (of_int n) = n"
  by (simp add: round_half_even_def)

lemma binade_ge_one:
  "1 \<le> x \<Longrightarrow> x < 2 ^ k \<Longrightarrow> k \<le> fuel \<Longrightarrow>
     0 \<le> binade fuel x \<and> binade fuel x < int k \<and> 2 ^ nat (binade fuel x) \<le> x"
proof (induction fuel arbitrary: x k)
  case 0
  then show ?case by simp
next
  case (Suc fuel)
  show ?case
  proof (cases "2 \<le> x")
    case False
    have "0 < k" using Suc.prems(1,2) by (cases k) auto
    then show ?thesis using False Suc.prems(1) by simp
  next
    case True
    then obtain j where k: "k = Suc j" using Suc.prems(2) by (cases k) auto
    have h: "1 \<le> x / 2" "x / 2 < 2 ^ j" "j \<le> fuel" using True Suc.prems(2,3) k by auto
    from Suc.IH[OF h] have ih: "0 \<le> binade fuel (x / 2)" "binade fuel (x / 2) < int j"
      "2 ^ nat (binade fuel (x / 2)) \<le> x / 2" by blast+
    have b: "binade (Suc fuel) x = binade fuel (x / 2) + 1" using True Suc.prems(1) by simp
    have "nat (binade fuel (x / 2) + 1) = Suc (nat (binade fuel (x / 2)))" using ih(1) by simp
    then have "(2::real) ^ nat (binade fuel (x / 2) + 1) = 2 * 2 ^ nat (binade fuel (x / 2))"
      by simp
    then show ?thesis using ih k unfolding b by simp
  qed
qed

lemma to_double_nat:
  assumes "k \<le> 2 ^ 53"
  shows "to_double (real k) = real k"
proof (cases "k = 0")
  case True then show ?thesis by (simp add: to_double_def)
next
  case False
  let ?x = "real k"
  let ?e = "binade 1100 ?x"
  have x1: "1 \<le> ?x" using False by simp
  have xle: "?x \<le> 2 ^ 53" using assms by (metis of_nat_le_iff of_nat_numeral of_nat_power)
  then have x54: "?x < 2 ^ 54" by simp
  from binade_ge_one[OF x1 x54, of 1100]
  have e: "0 \<le> ?e" "?e < 54" "2 ^ nat ?e \<le> ?x" by simp_all
  obtain m where m: "?x / pow2 (?e - 52) = of_int m"
  proof (cases "?e \<le> 52")
    case True
    then have "pow2 (?e - 52) = 1 / 2 ^ nat (52 - ?e)"
      by (cases "?e = 52") (simp_all add: pow2_def)
    then have "?x / pow2 (?e - 52) = of_int (int k * 2 ^ nat (52 - ?e))" by simp
    then show ?thesis using that by blast
  next
    case False
    then have e53: "?e = 53" using e(2) by simp
    then have "(2::real) ^ 53 \<le> ?x" using e(3) by simp
    then have "?x = 2 ^ 53" using xle by simp
    moreover have "pow2 (?e - 52) = 2" using e53 by (simp add: pow2_def)
    ultimately have "?x / pow2 (?e - 52) = of_int (2 ^ 52)" by simp
    then show ?thesis using that by blast
  qed
  have p: "pow2 (?e - 52) \<noteq> 0" by (simp add: pow2_def)
  have mx: "max ?e (- 1022) = ?e" using e(1) by simp
  have ax: "\<bar>?x\<bar> = ?x" by simp
  have "to_double ?x = sgn ?x * of_int (round_half_even (?x / pow2 (?e - 52))) * pow2 (?e - 52)"
    using False unfolding to_double_def Let_def ax mx by simp
  also have "\<dots> = of_int m * pow2 (?e - 52)" using x1 by (simp add: m round_half_even_of_int)
  also have "\<dots> = ?x" using m p by (simp add: field_simps)
  finally show ?thesis .
qed

lemma double_add_Nats:
  assumes "a \<in> \<nat>" "b \<in> \<nat>" "a + b \<le> 2 ^ 53"
  shows "double_add a b = a + b"
proof -
  have "a + b \<in> \<nat>" using assms(1,2) by (rule Nats_add)
  then obtain k where k: "a + b = real k" by (auto elim: Nats_cases)
  then have "real k \<le> 2 ^ 53" using assms(3) by simp
  then have "k \<le> 2 ^ 53" by (metis of_nat_le_iff of_nat_numeral of_nat_power)
  then show ?thesis unfolding double_add_def k by (rule to_double_nat)
qed

lemma Nats_nonneg: "x \<in> \<nat> \<Longrightarrow> 0 \<le> x" for x :: real
  by (auto elim: Nats_cases)

lemma sum_list_amount_nonneg:
  "\<forall>d\<in>set data. amount d \<in> \<nat> \<Longrightarrow> 0 \<le> sum_list (map amount data)"
  by (rule sum_list_nonneg) (auto simp: Nats_nonneg)

lemma foldl_double_add:
  "s \<in> \<nat> \<Longrightarrow> \<forall>d\<in>set data. amount d \<in> \<nat> \<Longrightarrow> s + sum_list (map amount data) \<le> 2 ^ 53 \<Longrightarrow>
     foldl (\<lambda>sum d. double_add sum (amount d)) s data = s + sum_list (map amount data)"
proof (induction data arbitrary: s)
  case Nil then show ?case by simp
next
  case (Cons d data)
  have rest: "0 \<le> sum_list (map amount data)"
    using Cons.prems(2) by (intro sum_list_amount_nonneg) simp
  have a: "amount d \<in> \<nat>" using Cons.prems(2) by simp
  have "s + amount d \<le> 2 ^ 53" using Cons.prems(3) rest by simp
  then have step: "double_add s (amount d) = s + amount d"
    using Cons.prems(1) a by (intro double_add_Nats)
  have "s + amount d \<in> \<nat>" using Cons.prems(1) a by (rule Nats_add)
  moreover have "\<forall>d\<in>set data. amount d \<in> \<nat>" using Cons.prems(2) by simp
  moreover have "s + amount d + sum_list (map amount data) \<le> 2 ^ 53" using Cons.prems(3) by simp
  ultimately have "foldl (\<lambda>sum d. double_add sum (amount d)) (s + amount d) data
        = s + amount d + sum_list (map amount data)"
    by (rule Cons.IH)
  then show ?case by (simp add: step)
qed

subsection \<open>Entries of the by-grower result\<close>

lemma keys_add_purchase: "map fst (add_purchase before d al) = map fst al"
  unfolding add_purchase_def by (induction al) auto

lemma add_purchase_other:
  "grower_name d \<notin> fst ` set al \<Longrightarrow> add_purchase before d al = al"
  unfolding add_purchase_def by (induction al) auto

lemma revenue_sum_Cons: "revenue_sum ((n, g) # al) = g_revenue g + revenue_sum al"
  by (simp add: revenue_sum_def)

lemma add_purchase_Cons:
  "add_purchase before d ((n, g) # al) =
     (if n = grower_name d
      then (n, \<lparr> g_revenue = double_add (g_revenue g) (amount d),
                 orders = orders g + 1,
                 products = set_add (product d) (products g),
                 firstPurchase = (if before (date d) (firstPurchase g)
                                  then date d else firstPurchase g),
                 lastPurchase = (if before (lastPurchase g) (date d)
                                 then date d else lastPurchase g) \<rparr>)
      else (n, g)) # add_purchase before d al"
  by (simp add: add_purchase_def)

lemma revenue_sum_add_purchase:
  assumes "distinct (map fst al)" and "(grower_name d, g) \<in> set al"
    and "double_add (g_revenue g) (amount d) = g_revenue g + amount d"
  shows "revenue_sum (add_purchase before d al) = revenue_sum al + amount d"
  using assms(1,2)
proof (induction al)
  case Nil
  then show ?case by simp
next
  case (Cons e al)
  obtain n h where e: "e = (n, h)" by (cases e)
  show ?case
  proof (cases "n = grower_name d")
    case True
    then have out: "grower_name d \<notin> fst ` set al" using Cons.prems(1) e by auto
    then have "h = g" using Cons.prems(2) e True by (auto simp: image_iff)
    then show ?thesis
      using True e assms(3) add_purchase_other[OF out, of before]
      by (simp add: add_purchase_Cons revenue_sum_Cons)
  next
    case False
    then have "(grower_name d, g) \<in> set al" using Cons.prems(2) e by auto
    moreover have "distinct (map fst al)" using Cons.prems(1) by simp
    ultimately show ?thesis using Cons.IH False e
      by (simp add: add_purchase_Cons revenue_sum_Cons)
  qed
qed

lemma whole_add_purchase:
  assumes "distinct (map fst al)" and "(grower_name d, g) \<in> set al"
    and "double_add (g_revenue g) (amount d) \<in> \<nat>"
    and "\<forall>e\<in>set al. g_revenue (snd e) \<in> \<nat>"
  shows "\<forall>e\<in>set (add_purchase before d al). g_revenue (snd e) \<in> \<nat>"
  using assms(1,2,4)
proof (induction al)
  case Nil
  then show ?case by (simp add: add_purchase_def)
next
  case (Cons e al)
  obtain n h where e: "e = (n, h)" by (cases e)
  show ?case
  proof (cases "n = grower_name d")
    case True
    then have out: "grower_name d \<notin> fst ` set al" using Cons.prems(1) e by auto
    then have "h = g" using Cons.prems(2) e True by (auto simp: image_iff)
    then show ?thesis
      using True e assms(3) add_purchase_other[OF out, of before] Cons.prems(3)
      by (simp add: add_purchase_Cons)
  next
    case False
    then have m: "(grower_name d, g) \<in> set al" using Cons.prems(2) e by auto
    have "distinct (map fst al)" using Cons.prems(1) by simp
    moreover note m
    moreover have "\<forall>e\<in>set al. g_revenue (snd e) \<in> \<nat>" using Cons.prems(3) by simp
    ultimately have "\<forall>e\<in>set (add_purchase before d al). g_revenue (snd e) \<in> \<nat>"
      by (rule Cons.IH)
    then show ?thesis using False e Cons.prems(3) by (simp add: add_purchase_Cons)
  qed
qed

lemma entry_le_revenue_sum:
  assumes "\<forall>e\<in>set al. g_revenue (snd e) \<in> \<nat>" and "(n, g) \<in> set al"
  shows "g_revenue g \<le> revenue_sum al"
proof -
  let ?vs = "map (\<lambda>(name, grower). g_revenue grower) al"
  have "\<forall>v\<in>set ?vs. 0 \<le> v" using assms(1) by (auto simp: Nats_nonneg)
  moreover have "g_revenue g \<in> set ?vs" using assms(2) by (force simp: image_iff)
  ultimately show ?thesis unfolding revenue_sum_def by (rule member_le_sum_list_real)
qed

lemma map_of_None_keys: "map_of al k = None \<longleftrightarrow> k \<notin> fst ` set al"
  by (simp add: map_of_eq_None_iff)

lemma by_grower_step_exact:
  assumes dist: "distinct (map fst al)"
    and whole: "\<forall>e\<in>set al. g_revenue (snd e) \<in> \<nat>"
    and a: "amount d \<in> \<nat>"
    and bound: "revenue_sum al + amount d \<le> 2 ^ 53"
    and name: "grower_name d \<notin> set object_prototype_names"
  shows "\<exists>al'. by_grower_step before al d = Inr al'
           \<and> distinct (map fst al')
           \<and> fst ` set al' = insert (grower_name d) (fst ` set al)
           \<and> (\<forall>e\<in>set al'. g_revenue (snd e) \<in> \<nat>)
           \<and> revenue_sum al' = revenue_sum al + amount d"
proof -
  let ?new = "(grower_name d, \<lparr> g_revenue = 0, orders = 0, products = [],
                  firstPurchase = date d, lastPurchase = date d \<rparr>)"
  define al1 where "al1 = (if grower_name d \<in> fst ` set al then al else al @ [?new])"
  have step: "by_grower_step before al d = Inr (add_purchase before d al1)"
  proof (cases "map_of al (grower_name d)")
    case None
    then show ?thesis using name map_of_None_keys[of al "grower_name d"]
      by (simp add: by_grower_step_def al1_def)
  next
    case (Some g)
    then show ?thesis using map_of_None_keys[of al "grower_name d"]
      by (simp add: by_grower_step_def al1_def)
  qed
  have d1: "distinct (map fst al1)" using dist by (simp add: al1_def)
  have w1: "\<forall>e\<in>set al1. g_revenue (snd e) \<in> \<nat>" using whole by (simp add: al1_def)
  have s1: "revenue_sum al1 = revenue_sum al" by (simp add: al1_def revenue_sum_def)
  have k1: "fst ` set al1 = insert (grower_name d) (fst ` set al)" by (auto simp: al1_def)
  then have "grower_name d \<in> fst ` set al1" by simp
  then obtain g where g: "(grower_name d, g) \<in> set al1" by force
  have gn: "g_revenue g \<in> \<nat>" using w1 g by force
  have "g_revenue g \<le> revenue_sum al1" using w1 g by (rule entry_le_revenue_sum)
  then have "g_revenue g + amount d \<le> 2 ^ 53" using bound s1 by simp
  then have ex: "double_add (g_revenue g) (amount d) = g_revenue g + amount d"
    using gn a by (intro double_add_Nats)
  have exn: "double_add (g_revenue g) (amount d) \<in> \<nat>" unfolding ex using gn a by (rule Nats_add)
  let ?al' = "add_purchase before d al1"
  have "distinct (map fst ?al')" using d1 by (simp add: keys_add_purchase)
  moreover have "fst ` set ?al' = insert (grower_name d) (fst ` set al)"
    using k1 keys_add_purchase[of before d al1] by (metis set_map)
  moreover have "\<forall>e\<in>set ?al'. g_revenue (snd e) \<in> \<nat>"
    using d1 g exn w1 by (rule whole_add_purchase)
  moreover have "revenue_sum ?al' = revenue_sum al + amount d"
    using revenue_sum_add_purchase[OF d1 g ex, of before] s1 by simp
  ultimately show ?thesis using step by blast
qed

lemma by_grower_loop_exact:
  "distinct (map fst al) \<Longrightarrow> \<forall>e\<in>set al. g_revenue (snd e) \<in> \<nat> \<Longrightarrow>
   \<forall>d\<in>set data. amount d \<in> \<nat> \<Longrightarrow>
   \<forall>d\<in>set data. grower_name d \<notin> set object_prototype_names \<Longrightarrow>
   revenue_sum al + sum_list (map amount data) \<le> 2 ^ 53 \<Longrightarrow>
   \<exists>al'. by_grower_loop before al data = Inr al'
         \<and> distinct (map fst al')
         \<and> fst ` set al' = fst ` set al \<union> names data
         \<and> revenue_sum al' = revenue_sum al + sum_list (map amount data)"
proof (induction data arbitrary: al)
  case Nil
  then show ?case by (simp add: names_def)
next
  case (Cons d data)
  have rest: "0 \<le> sum_list (map amount data)"
    using Cons.prems(3) by (intro sum_list_amount_nonneg) simp
  have b: "revenue_sum al + amount d \<le> 2 ^ 53" using Cons.prems(5) rest by simp
  have a: "amount d \<in> \<nat>" and n: "grower_name d \<notin> set object_prototype_names"
    using Cons.prems(3,4) by simp_all
  from by_grower_step_exact[OF Cons.prems(1,2) a b n, of before]
  obtain al1 where s: "by_grower_step before al d = Inr al1"
    and d1: "distinct (map fst al1)"
    and k1: "fst ` set al1 = insert (grower_name d) (fst ` set al)"
    and w1: "\<forall>e\<in>set al1. g_revenue (snd e) \<in> \<nat>"
    and r1: "revenue_sum al1 = revenue_sum al + amount d" by blast
  have "\<forall>d\<in>set data. amount d \<in> \<nat>"
    and "\<forall>d\<in>set data. grower_name d \<notin> set object_prototype_names"
    and "revenue_sum al1 + sum_list (map amount data) \<le> 2 ^ 53"
    using Cons.prems(3,4,5) r1 by simp_all
  from Cons.IH[OF d1 w1 this]
  obtain al' where "by_grower_loop before al1 data = Inr al'" "distinct (map fst al')"
    "fst ` set al' = fst ` set al1 \<union> names data"
    "revenue_sum al' = revenue_sum al1 + sum_list (map amount data)" by blast
  then show ?case using s k1 r1 by (auto simp: names_def)
qed

text \<open>
  C3 (amended). For a transaction set in which no grower is named as a property of
  \<open>Object.prototype\<close> is, and whose amounts are whole numbers, not negative, with a sum of
  at most \<open>2^53\<close>, the by-grower aggregation answers with one entry for each grower name,
  and the revenues of its entries add up to the \<open>totalRevenue\<close> of \<open>calculateSummary\<close>,
  which is the sum of the amounts: no addition is rounded.
\<close>

theorem by_grower_partitions_total:
  assumes "\<forall>d\<in>set data. grower_name d \<notin> set object_prototype_names"
    and "\<forall>d\<in>set data. amount d \<in> \<nat>"
    and "sum_list (map amount data) \<le> 2 ^ 53"
  shows "\<exists>byGrower. by_grower before data = Inr byGrower
           \<and> distinct (map fst byGrower)
           \<and> set (map fst byGrower) = names data
           \<and> revenue_sum byGrower = totalRevenue (calculateSummary data)
           \<and> totalRevenue (calculateSummary data) = sum_list (map amount data)"
proof -
  have total: "totalRevenue (calculateSummary data) = sum_list (map amount data)"
    using foldl_double_add[of 0 data] assms(2,3) by (simp add: calculateSummary_def Let_def)
  have "revenue_sum [] + sum_list (map amount data) \<le> 2 ^ 53"
    using assms(3) by (simp add: revenue_sum_def)
  from by_grower_loop_exact[of "[]" data before, OF _ _ assms(2) assms(1) this]
  obtain al' where "by_grower_loop before [] data = Inr al'" "distinct (map fst al')"
    "fst ` set al' = names data" "revenue_sum al' = sum_list (map amount data)"
    by (auto simp: revenue_sum_def)
  then show ?thesis using total by (auto simp: by_grower_def)
qed

text \<open>
  The theorem at three purchases of two growers, with amounts 100, 250 and 300.
\<close>

theorem by_grower_partitions_total_witness:
  "by_grower iso_before whole_data \<noteq> Inl TypeError
   \<and> revenue_sum (projr (by_grower iso_before whole_data))
       = totalRevenue (calculateSummary whole_data)
   \<and> totalRevenue (calculateSummary whole_data) = 650"
proof -
  have h1: "\<forall>d\<in>set whole_data. grower_name d \<notin> set object_prototype_names"
    by (simp add: whole_data_def object_prototype_names_def)
  have h2: "\<forall>d\<in>set whole_data. amount d \<in> \<nat>" by (simp add: whole_data_def)
  have h3: "sum_list (map amount whole_data) \<le> 2 ^ 53" by (simp add: whole_data_def)
  from by_grower_partitions_total[OF h1 h2 h3, of iso_before]
  obtain byGrower where "by_grower iso_before whole_data = Inr byGrower"
    "revenue_sum byGrower = totalRevenue (calculateSummary whole_data)"
    "totalRevenue (calculateSummary whole_data) = sum_list (map amount whole_data)" by blast
  then show ?thesis by (simp add: whole_data_def)
qed

text \<open>
  The claim as stated fails on amounts that are not whole numbers, because the two sums
  add the same doubles in different orders. For the amounts 0.1 of grower A and 0.2, 0.3
  of grower B the total is \<open>(0.1 + 0.2) + 0.3\<close>, the double 0.6000000000000001, while the
  revenues are the double 0.1 and \<open>0.2 + 0.3\<close>, the double 0.5: their sum is smaller than
  the total, and rounded to a double it is 0.6.
\<close>

theorem by_grower_partitions_total_counterexample:
  "by_grower iso_before cents_data =
     Inr [(''A'', \<lparr> g_revenue = 3602879701896397 / 36028797018963968, orders = 1,
                    products = [''Corn Seed''],
                    firstPurchase = ''2024-01-05'', lastPurchase = ''2024-01-05'' \<rparr>),
          (''B'', \<lparr> g_revenue = 1 / 2, orders = 2,
                    products = [''Sorghum'', ''Alfalfa''],
                    firstPurchase = ''2024-02-07'', lastPurchase = ''2024-03-09'' \<rparr>)]
   \<and> totalRevenue (calculateSummary cents_data) = 5404319552844596 / 9007199254740992
   \<and> revenue_sum (projr (by_grower iso_before cents_data))
       = 21617278211378381 / 36028797018963968
   \<and> to_double (revenue_sum (projr (by_grower iso_before cents_data)))
       = 5404319552844595 / 9007199254740992"
  by code_simp

text \<open>
  A grower named \<open>constructor\<close> makes the handler throw: \<open>byGrower['constructor']\<close> is the
  inherited function, no entry is made for the name, and \<open>grower.products\<close> is undefined.
\<close>

lemma by_grower_constructor: "by_grower iso_before constructor_data = Inl TypeError"
  by code_simp

section \<open>Properties of the CSV text\<close>

subsection \<open>Trimming\<close>

lemma trim_id:
  assumes "s \<noteq> []" "\<not> is_space (hd s)" "\<not> is_space (last s)"
  shows "trim s = s"
proof -
  have 1: "dropWhile is_space s = s" using assms(2) by (simp add: dropWhile_eq_self_iff)
  have "hd (rev s) = last s" using assms(1) by (simp add: hd_rev)
  then have 2: "dropWhile is_space (rev s) = rev s"
    using assms(3) by (simp add: dropWhile_eq_self_iff)
  show ?thesis by (simp add: trim_def 1 2)
qed

lemma trim_Nil: "trim [] = []" by (simp add: trim_def)

lemma trim_fixed_hd:
  assumes "trim s = s" "s \<noteq> []"
  shows "\<not> is_space (hd s)"
proof -
  let ?t = "dropWhile is_space s"
  have "length (dropWhile is_space (rev ?t)) \<le> length (rev ?t)" by (rule length_dropWhile_le)
  then have "length (trim s) \<le> length ?t" by (simp add: trim_def)
  then have "length s \<le> length ?t" using assms(1) by simp
  moreover have "length s = length (takeWhile is_space s) + length ?t"
    by (metis length_append takeWhile_dropWhile_id)
  ultimately have "takeWhile is_space s = []" by simp
  then have "?t = s" by (metis append_Nil takeWhile_dropWhile_id)
  then show ?thesis using assms(2) by (simp add: dropWhile_eq_self_iff)
qed

subsection \<open>Splitting and joining\<close>

lemma split_from_no_sep:
  "sep \<notin> set f \<Longrightarrow> split_from sep current (f @ rest) = 
     (case rest of [] \<Rightarrow> [current @ f] | c # cs \<Rightarrow> split_from sep (current @ f) (c # cs))"
  by (induction f arbitrary: current) (auto split: list.splits)

lemma split_from_field:
  "sep \<notin> set f \<Longrightarrow> split_from sep current (f @ sep # rest) = (current @ f) # split_from sep [] rest"
  by (induction f arbitrary: current) auto

lemma split_from_last: "sep \<notin> set f \<Longrightarrow> split_from sep current f = [current @ f]"
  by (induction f arbitrary: current) auto

lemma split_on_join:
  "ls \<noteq> [] \<Longrightarrow> \<forall>l\<in>set ls. sep \<notin> set l \<Longrightarrow> split_on sep (join [sep] ls) = ls"
proof (induction "[sep]" ls rule: join.induct)
  case 1 then show ?case by simp
next
  case (2 v) then show ?case by (simp add: split_on_def split_from_last)
next
  case (3 v w ws)
  then show ?case by (simp add: split_on_def split_from_field)
qed

subsection \<open>Fields of a line\<close>

lemma loop_field:
  "CHR '','' \<notin> set f \<Longrightarrow> CHR 0x22 \<notin> set f \<Longrightarrow>
   parseCSVLine_loop (f @ rest) result current False = parseCSVLine_loop rest result (current @ f) False"
  by (induction f arbitrary: current) auto

lemma loop_join:
  "fs \<noteq> [] \<Longrightarrow> \<forall>f\<in>set fs. CHR '','' \<notin> set f \<and> CHR 0x22 \<notin> set f \<Longrightarrow>
   parseCSVLine_loop (join '','' fs) result current False = result @ (current @ hd fs) # tl fs"
proof (induction "'',''" fs arbitrary: result current rule: join.induct)
  case 1 then show ?case by simp
next
  case (2 v)
  then show ?case using loop_field[of v "[]" result current] by simp
next
  case (3 v w ws)
  have "parseCSVLine_loop (v @ '','' @ join '','' (w # ws)) result current False
        = parseCSVLine_loop ('','' @ join '','' (w # ws)) result (current @ v) False"
    using 3(3) by (intro loop_field) auto
  also have "\<dots> = parseCSVLine_loop (join '','' (w # ws)) (result @ [current @ v]) [] False" by simp
  also have "\<dots> = (result @ [current @ v]) @ ([] @ hd (w # ws)) # tl (w # ws)"
    using 3(3) by (intro 3(1)) auto
  finally show ?case by simp
qed

lemma parseCSVLine_join:
  "fs \<noteq> [] \<Longrightarrow> \<forall>f\<in>set fs. CHR '','' \<notin> set f \<and> CHR 0x22 \<notin> set f \<Longrightarrow>
   parseCSVLine (join '','' fs) = fs"
  by (simp add: parseCSVLine_def loop_join)

lemma str_includes_char: "str_includes s [c] \<longleftrightarrow> c \<in> set s"
  by (induction s) auto

lemma set_join: "set (join sep fs) \<subseteq> set sep \<union> \<Union> (set ` set fs)"
  by (induction sep fs rule: join.induct) auto

subsection \<open>Export followed by parsing\<close>

lemma comma_not_space: "\<not> is_space (CHR '','')" by (simp add: is_space_def)
lemma tab_space: "is_space (CHR 0x09)" by (simp add: is_space_def)
lemma nl_space: "is_space (CHR 0x0A)" by (simp add: is_space_def)

lemma numeric_text_free:
  assumes "numeric_text s"
  shows "CHR '','' \<notin> set s \<and> CHR 0x22 \<notin> set s \<and> CHR 0x09 \<notin> set s \<and> CHR 0x0A \<notin> set s"
  using assms tab_space nl_space unfolding numeric_text_def by blast

lemma numeric_text_last: "numeric_text s \<Longrightarrow> s \<noteq> [] \<Longrightarrow> \<not> is_space (last s)"
  unfolding numeric_text_def using last_in_set by blast

lemma plain_text_free:
  assumes "plain_text s"
  shows "CHR '','' \<notin> set s \<and> CHR 0x22 \<notin> set s \<and> CHR 0x09 \<notin> set s \<and> CHR 0x0A \<notin> set s"
  using assms unfolding plain_text_def separator_free_def by blast

lemma last_join:
  "ls \<noteq> [] \<Longrightarrow> last ls \<noteq> [] \<Longrightarrow> join sep ls \<noteq> [] \<and> last (join sep ls) = last (last ls)"
  by (induction sep ls rule: join.induct) auto

lemma hd_join: "ls \<noteq> [] \<Longrightarrow> hd ls \<noteq> [] \<Longrightarrow> hd (join sep ls) = hd (hd ls)"
  by (induction sep ls rule: join.induct) auto

lemma row_line:
  assumes dt: "plain_text dt" "dt \<noteq> []" and iv: "plain_text iv"
    and gn: "plain_text gn" and pr: "plain_text pr"
    and q: "numeric_text q" and a: "numeric_text a"
  defines "line \<equiv> join '','' [dt, iv, gn, pr, q, a]"
  shows "line \<noteq> []" and "\<not> is_space (hd line)" and "\<not> is_space (last line)"
    and "CHR 0x0A \<notin> set line" and "line_values line = [dt, iv, gn, pr, q, a]"
proof -
  let ?fs = "[dt, iv, gn, pr, q, a]"
  have l: "line = dt @ '','' @ iv @ '','' @ gn @ '','' @ pr @ '','' @ q @ '','' @ a"
    by (simp add: line_def)
  show "line \<noteq> []" by (simp add: l)
  have "hd line = hd dt" using dt(2) by (simp add: l)
  moreover have "trim dt = dt" using dt(1) by (simp add: plain_text_def)
  ultimately show "\<not> is_space (hd line)" using trim_fixed_hd[of dt] dt(2) by simp
  have la: "last line = (if a = [] then CHR '','' else last a)" by (simp add: l)
  show "\<not> is_space (last line)"
  proof (cases "a = []")
    case True then show ?thesis using la comma_not_space by simp
  next
    case False then show ?thesis using la numeric_text_last[OF a] by simp
  qed
  have free: "\<forall>f\<in>set ?fs. CHR '','' \<notin> set f \<and> CHR 0x22 \<notin> set f \<and> CHR 0x09 \<notin> set f \<and> CHR 0x0A \<notin> set f"
    using plain_text_free[OF dt(1)] plain_text_free[OF iv] plain_text_free[OF gn]
      plain_text_free[OF pr] numeric_text_free[OF q] numeric_text_free[OF a]
    by simp
  have sub: "set line \<subseteq> set '','' \<union> \<Union> (set ` set ?fs)" unfolding line_def by (rule set_join)
  have nl: "CHR 0x0A \<notin> set '','' \<union> \<Union> (set ` set ?fs)" using free by simp
  show "CHR 0x0A \<notin> set line" using sub nl by blast
  have tab: "CHR 0x09 \<notin> set '','' \<union> \<Union> (set ` set ?fs)" using free by simp
  have "CHR 0x09 \<notin> set line" using sub tab by blast
  then have "\<not> str_includes line [CHR 0x09]" by (simp add: str_includes_char)
  moreover have "parseCSVLine line = ?fs"
    unfolding line_def using free by (intro parseCSVLine_join) simp_all
  ultimately show "line_values line = ?fs" by (simp add: line_values_def)
qed

lemma make_entry_fields:
  assumes "exportable nt d"
  shows "make_entry pf (fields_of nt d) = reread pf nt d"
  using assms by (simp add: make_entry_def fields_of_def reread_def exportable_def plain_text_def)

lemma exportable_line:
  assumes "exportable nt d"
  defines "line \<equiv> join '','' (fields_of nt d)"
  shows "line \<noteq> []" "trim line = line" "CHR 0x0A \<notin> set line" "line_values line = fields_of nt d"
    "\<not> is_space (last line)"
proof -
  have e: "plain_text (date d)" "date d \<noteq> []" "plain_text (invoice_number d)"
    "plain_text (grower_name d)" "plain_text (product d)"
    "numeric_text (nt (quantity d))" "numeric_text (nt (amount d))"
    using assms(1) by (simp_all add: exportable_def)
  have r: "line \<noteq> []" "\<not> is_space (hd line)" "\<not> is_space (last line)"
    "CHR 0x0A \<notin> set line" "line_values line = fields_of nt d"
    unfolding line_def fields_of_def by (rule row_line[OF e])+
  show "line \<noteq> []" "CHR 0x0A \<notin> set line" "line_values line = fields_of nt d" using r by blast+
  show "trim line = line" using r(1,2,3) by (rule trim_id)
  show "\<not> is_space (last line)" by (rule r(3))
qed

lemma parse_rows_lines:
  "\<forall>d\<in>set data. exportable nt d \<Longrightarrow>
   parse_rows pf (map (\<lambda>d. join '','' (fields_of nt d)) data) = map (reread pf nt) data"
proof (induction data)
  case Nil then show ?case by simp
next
  case (Cons d data)
  have e: "exportable nt d" using Cons.prems by simp
  have ne: "date (reread pf nt d) \<noteq> [] \<and> grower_name (reread pf nt d) \<noteq> [] \<and> product (reread pf nt d) \<noteq> []"
    using e by (simp add: reread_def exportable_def)
  have len: "length (fields_of nt d) = 6" by (simp add: fields_of_def)
  show ?case using Cons exportable_line[OF e] make_entry_fields[OF e, of pf] ne len
    by (simp add: Let_def)
qed


lemma header_line:
  "join '','' headers = ''date,invoice_number,grower_name,product,quantity,amount''"
  by (simp add: headers_def)

lemma header_start: "start_index (join '','' headers) = 1"
  unfolding header_line by code_simp

lemma parseCSV_lines:
  assumes "\<forall>d\<in>set data. exportable nt d"
  shows "parseCSV pf (join [CHR 0x0A] (join '','' headers # map (\<lambda>d. join '','' (fields_of nt d)) data))
         = Inr (map (reread pf nt) data)"
proof -
  let ?H = "join '','' headers"
  let ?lines = "map (\<lambda>d. join '','' (fields_of nt d)) data"
  let ?L = "?H # ?lines"
  let ?csv = "join [CHR 0x0A] ?L"
  have H: "?H \<noteq> []" "hd ?H = CHR ''d''" "last ?H = CHR ''t''" "CHR 0x0A \<notin> set ?H"
    unfolding header_line by simp_all
  have lines: "l \<noteq> [] \<and> \<not> is_space (last l) \<and> CHR 0x0A \<notin> set l" if "l \<in> set ?lines" for l
    using that assms exportable_line by auto
  have lastL: "last ?L \<noteq> [] \<and> \<not> is_space (last (last ?L))"
  proof (cases "data = []")
    case True then show ?thesis using H by (simp add: is_space_def)
  next
    case False
    then have n: "?lines \<noteq> []" by simp
    then have "last ?L = last ?lines" by simp
    moreover have "last ?lines \<in> set ?lines" using n by (rule last_in_set)
    ultimately have "last ?L \<in> set ?lines" by simp
    then show ?thesis using lines by blast
  qed
  have ne: "?csv \<noteq> []" and last: "last ?csv = last (last ?L)"
    using last_join[of ?L "[CHR 0x0A]"] lastL by simp_all
  have "hd ?csv = hd (hd ?L)" using H(1) by (intro hd_join) simp_all
  then have hd: "\<not> is_space (hd ?csv)" using H(2) by (simp add: is_space_def)
  have t: "trim ?csv = ?csv" using ne hd lastL last by (intro trim_id) simp_all
  have "\<forall>l\<in>set ?L. CHR 0x0A \<notin> set l" using H(4) lines by auto
  then have sp: "split_on (CHR 0x0A) ?csv = ?L" by (intro split_on_join) simp_all
  show ?thesis
    unfolding parseCSV_def t sp
    using parse_rows_lines[OF assms, of pf] by (simp add: header_start)
qed

lemma exportable_text_or_empty:
  "exportable nt d \<Longrightarrow> exportable (text_or_empty nt) d"
  by (simp add: exportable_def text_or_empty_def numeric_text_def)

text \<open>
  C4 (amended). For a transaction set whose date, invoice number, grower name and product
  hold no comma, double quote, tab or line feed and no white space at either end, whose
  date, grower name and product are not empty, and whose numbers are written without
  comma, quote or white space: parsing the text of \<open>generateCSV\<close> gives the records back,
  and so does parsing the text of \<open>exportToCSV\<close> when the set is not empty (an empty set
  is not exported). The numbers of the records are the ones \<open>parseFloat\<close> reads from their
  exported text.
\<close>

theorem csv_round_trip:
  "(data \<noteq> [] \<and> (\<forall>d\<in>set data. exportable numText d) \<longrightarrow>
      (\<exists>csv. exportToCSV numText data = Some csv
           \<and> parseCSV parseFloat csv = Inr (map (reread parseFloat numText) data)))
   \<and> ((\<forall>d\<in>set data. exportable numText d) \<longrightarrow>
        parseCSV parseFloat (generateCSV numText data)
          = Inr (map (reread parseFloat (text_or_empty numText)) data))"
proof -
  have client: "\<exists>csv. exportToCSV numText data = Some csv
           \<and> parseCSV parseFloat csv = Inr (map (reread parseFloat numText) data)"
    if "data \<noteq> []" and e: "\<forall>d\<in>set data. exportable numText d"
    using that parseCSV_lines[OF e, of parseFloat]
    by (simp add: exportToCSV_def Let_def comp_def fields_of_def)
  have server: "parseCSV parseFloat (generateCSV numText data)
          = Inr (map (reread parseFloat (text_or_empty numText)) data)"
    if e: "\<forall>d\<in>set data. exportable numText d"
  proof -
    have "\<forall>d\<in>set data. exportable (text_or_empty numText) d"
      using e exportable_text_or_empty by blast
    from parseCSV_lines[OF this, of parseFloat] show ?thesis
      by (simp add: generateCSV_def Let_def fields_of_def)
  qed
  show ?thesis using client server by blast
qed

text \<open>The theorem at a set of one record, which comes back unchanged.\<close>

theorem csv_round_trip_witness:
  "exportToCSV sample_numText sample_data \<noteq> None
   \<and> parseCSV sample_parseFloat (the (exportToCSV sample_numText sample_data)) = Inr sample_data
   \<and> parseCSV sample_parseFloat (generateCSV sample_numText sample_data) = Inr sample_data"
proof -
  have h: "sample_data \<noteq> [] \<and> (\<forall>d\<in>set sample_data. exportable sample_numText d)"
    by code_simp
  have r: "map (reread sample_parseFloat sample_numText) sample_data = sample_data"
    by code_simp
  have r': "map (reread sample_parseFloat (text_or_empty sample_numText)) sample_data = sample_data"
    by code_simp
  from csv_round_trip[of sample_data sample_numText sample_parseFloat] h r r'
  show ?thesis by auto
qed

text \<open>
  The claim as stated fails where a field holds a comma, because the export writes its
  fields unquoted: the grower \<open>Smith, John\<close> comes back as grower \<open>Smith\<close> with product
  \<open>John\<close>, quantity 0 and amount 10.
\<close>

theorem csv_round_trip_counterexample:
  "parseCSV sample_parseFloat (the (exportToCSV sample_numText comma_data)) =
   Inr [\<lparr> date = ''2024-01-05'', invoice_number = ''INV-1'', grower_name = ''Smith'',
        product = ''John'', quantity = 0, amount = 10 \<rparr>]"
  by code_simp

subsection \<open>Rows the parser accepts\<close>

lemma split_from_nonempty: "split_from sep current s \<noteq> []"
  by (induction s arbitrary: current) auto

lemma parse_rows_valid:
  "e \<in> set (parse_rows pf ls) \<Longrightarrow>
     date e \<noteq> [] \<and> grower_name e \<noteq> [] \<and> product e \<noteq> []
     \<and> (\<exists>l\<in>set ls. 6 \<le> length (line_values (trim l)) \<and> e = make_entry pf (line_values (trim l)))"
proof (induction ls)
  case Nil then show ?case by simp
next
  case (Cons l ls)
  show ?case
  proof (cases "e \<in> set (parse_rows pf ls)")
    case True
    then show ?thesis using Cons.IH by auto
  next
    case False
    then have "trim l \<noteq> [] \<and> 6 \<le> length (line_values (trim l))
        \<and> e = make_entry pf (line_values (trim l))
        \<and> date e \<noteq> [] \<and> grower_name e \<noteq> [] \<and> product e \<noteq> []"
      using Cons.prems by (auto simp: Let_def split: if_splits)
    then show ?thesis by auto
  qed
qed

lemma parseCSV_skips_invalid_rows:
  "\<exists>rows. parseCSV pf text = Inr rows
     \<and> (\<forall>e\<in>set rows. date e \<noteq> [] \<and> grower_name e \<noteq> [] \<and> product e \<noteq> []
           \<and> (\<exists>l\<in>set (split_on (CHR 0x0A) (trim text)).
                 6 \<le> length (line_values (trim l)) \<and> e = make_entry pf (line_values (trim l))))"
proof (cases "split_on (CHR 0x0A) (trim text)")
  case Nil
  then show ?thesis using split_from_nonempty by (simp add: split_on_def)
next
  case (Cons first rest)
  have "set (drop (start_index first) (first # rest)) \<subseteq> set (first # rest)"
    by (rule set_drop_subset)
  then show ?thesis
    using parse_rows_valid[of _ pf "drop (start_index first) (first # rest)"] Cons
    by (simp add: parseCSV_def) blast
qed

lemma unparsable_defaults:
  "parseFloat (values ! 4) = None \<Longrightarrow> quantity (make_entry parseFloat values) = 0"
  "parseFloat (filter (\<lambda>c. c \<noteq> CHR ''$'' \<and> c \<noteq> CHR '','') (values ! 5)) = None
     \<Longrightarrow> amount (make_entry parseFloat values) = 0"
  by (simp_all add: make_entry_def or_zero_def)

text \<open>
  C8. The parser of app.js returns for every text, without an exception, only rows that
  come from a line of at least six fields and have a date, a grower name and a product
  (lemma \<open>parseCSV_skips_invalid_rows\<close>), a number that cannot be read being 0 (lemma
  \<open>unparsable_defaults\<close>). The parser of the server has no test on the three fields: for
  the text \<open>,INV-1,,,5,100\<close> it returns a record whose date, grower name and product are
  empty, where the parser of app.js returns no record.
\<close>

theorem server_parseCSV_keeps_empty_fields:
  "server_parseCSV sample_parseFloat '',INV-1,,,5,100'' =
     Inr [\<lparr> date = [], invoice_number = ''INV-1'', grower_name = [], product = [],
            quantity = 5, amount = 100 \<rparr>]
   \<and> parseCSV sample_parseFloat '',INV-1,,,5,100'' = Inr []"
  by code_simp

end
